theory Spec2Isabelle
  imports Complex_Main "HOL-Library.Multiset"
begin

section \<open>Data model of \<^verbatim>\<open>src/main.py\<close>\<close>

text \<open>
  The program is the class \<^verbatim>\<open>StockAnalyzer\<close>. Its tables are pandas data frames; a frame
  is modelled as the list of its rows, in row order. A numeric cell of a frame is either a
  number or pandas' missing value \<^verbatim>\<open>NaN\<close>. Numbers are exact reals: the rounding of binary
  floating point and the infinities are not modelled (comparisons of floats are exact, and
  the only arithmetic of the program is one subtraction).
\<close>

datatype num = NaN | Num real

text \<open>Python's \<^verbatim>\<open><\<close> and \<^verbatim>\<open>></\<close> on floats: every comparison with \<^verbatim>\<open>NaN\<close> is false.\<close>

fun num_lt :: "num \<Rightarrow> num \<Rightarrow> bool" where
  "num_lt (Num x) (Num y) = (x < y)"
| "num_lt _ _ = False"

definition num_gt :: "num \<Rightarrow> num \<Rightarrow> bool" where
  "num_gt a b = num_lt b a"

text \<open>Python's \<^verbatim>\<open>-\<close> on floats: \<^verbatim>\<open>NaN\<close> is absorbing.\<close>

fun num_sub :: "num \<Rightarrow> num \<Rightarrow> num" where
  "num_sub (Num x) (Num y) = Num (x - y)"
| "num_sub _ _ = NaN"

text \<open>\<^verbatim>\<open>Series.notna()\<close> on one cell.\<close>

fun notna :: "num \<Rightarrow> bool" where
  "notna NaN = False"
| "notna (Num _) = True"

text \<open>
  The truth value Python gives to \<^verbatim>\<open>highest_price\<close> in \<^verbatim>\<open>if highest_price:\<close>
  (lines 218 and 253): \<^verbatim>\<open>None\<close> is false, the float zero is false, every other float,
  \<^verbatim>\<open>NaN\<close> included, is true.
\<close>

fun truthy :: "num option \<Rightarrow> bool" where
  "truthy None = False"
| "truthy (Some NaN) = True"
| "truthy (Some (Num x)) = (x \<noteq> 0)"

text \<open>
  A name cell of a frame: \<open>None\<close> is a missing name (the case \<^verbatim>\<open>na=False\<close> of line 150
  is about).
\<close>

type_synonym name_cell = "string option"

text \<open>
  A row of the fund-flow ranking (\<^verbatim>\<open>ak.stock_main_fund_flow\<close>), with the columns the
  program reads, in this order: the code, the name, the latest price, today's main-fund
  net ratio and today's change (the source names the columns in Chinese).
\<close>

record flow_row =
  flow_code :: string
  flow_name :: name_cell
  flow_latest_price :: num
  flow_main_net_ratio :: num
  flow_today_change :: num

text \<open>
  A row of the spot-quote snapshot (\<^verbatim>\<open>ak.stock_zh_a_spot_em\<close>): the code, the name,
  the latest price and the day's highest price.
\<close>

record spot_row =
  spot_code :: string
  spot_name :: name_cell
  spot_latest_price :: num
  spot_highest :: num

text \<open>
  An entry of the watch list \<^verbatim>\<open>care.json\<close>. The keys \<^verbatim>\<open>code\<close>, \<^verbatim>\<open>buy_price\<close> and
  \<^verbatim>\<open>start_time\<close> are read with \<^verbatim>\<open>stock[...]\<close> and are taken to be present with the
  types of the data model; the other keys may be absent (\<open>None\<close>), as
  \<^verbatim>\<open>stock.get(..., 'N/A')\<close> of line 366 allows.
\<close>

record care_stock =
  code :: string
  buy_price :: num
  start_time :: string
  name :: "name_cell option"
  current_price :: "num option"
  main_net_ratio :: "num option"
  today_change :: "num option"
  remark :: "string option"

text \<open>
  The remark of a settlement is one of three f-strings. Each constructor stands for one
  template of the source and carries the values interpolated into its holes, in the order
  of the holes:
  \<^item> \<open>Ratio_below_minus5 a\<close>: line 231, one hole;
  \<^item> \<open>Change_above_10 a\<close>: line 247, one hole, after the words for "today's rise";
  \<^item> \<open>Change_above_0_ratio_below_0 a b\<close>: line 266, two holes, the first after the words
    for "today's rise", the second after the words for "main-fund net ratio".
\<close>

datatype settle_remark =
    Ratio_below_minus5 num
  | Change_above_10 num
  | Change_above_0_ratio_below_0 num num

text \<open>A record of the settlement ledger: the dictionary \<^verbatim>\<open>settled_stock\<close>.\<close>

record settled_stock =
  settled_code :: string
  settled_name :: name_cell
  settled_buy_price :: num
  settled_start_time :: string
  settled_current_price :: num
  settled_main_net_ratio :: num
  settled_today_change :: num
  settled_profit_loss :: num
  settled_remark :: settle_remark

section \<open>The rule evaluator: the first loop of \<^verbatim>\<open>analyze_stocks\<close>\<close>

text \<open>
  The selection of the rows of a frame whose code column equals \<^verbatim>\<open>stock_code\<close>
  (lines 199, 200 and 285), followed by \<^verbatim>\<open>.empty\<close> and \<^verbatim>\<open>.iloc[0]\<close>: the first row with
  the code, if there is one.
\<close>

definition flow_lookup :: "flow_row list \<Rightarrow> string \<Rightarrow> flow_row option" where
  "flow_lookup df stock_code = find (\<lambda>r. flow_code r = stock_code) df"

definition spot_lookup :: "spot_row list \<Rightarrow> string \<Rightarrow> spot_row option" where
  "spot_lookup df stock_code = find (\<lambda>r. spot_code r = stock_code) df"

text \<open>Lines 200 to 204.\<close>

definition highest_price_of :: "spot_row list \<Rightarrow> string \<Rightarrow> num option" where
  "highest_price_of stock_data stock_code =
     (case spot_lookup stock_data stock_code of
        Some row \<Rightarrow> Some (spot_highest row)
      | None \<Rightarrow> None)"

text \<open>Lines 217 to 220, and again lines 252 to 255.\<close>

definition profit_loss_break_even :: "num option \<Rightarrow> num \<Rightarrow> num \<Rightarrow> num" where
  "profit_loss_break_even highest_price price buy =
     (let profit_loss = num_sub price buy in
      if truthy highest_price then
        (case highest_price of
           Some h \<Rightarrow> if num_gt h buy then Num 0 else profit_loss
         | None \<Rightarrow> profit_loss)
      else profit_loss)"

text \<open>The dictionary built at lines 222, 238 and 257.\<close>

definition make_settled :: "care_stock \<Rightarrow> flow_row \<Rightarrow> num \<Rightarrow> settle_remark \<Rightarrow> settled_stock" where
  "make_settled stock row profit_loss rem =
     \<lparr> settled_code = code stock,
       settled_name = flow_name row,
       settled_buy_price = buy_price stock,
       settled_start_time = start_time stock,
       settled_current_price = flow_latest_price row,
       settled_main_net_ratio = flow_main_net_ratio row,
       settled_today_change = flow_today_change row,
       settled_profit_loss = profit_loss,
       settled_remark = rem \<rparr>"

text \<open>Lines 271 to 274: the entry stays on the list with four keys refreshed.\<close>

definition refresh :: "care_stock \<Rightarrow> flow_row \<Rightarrow> care_stock" where
  "refresh stock row =
     stock\<lparr> current_price := Some (flow_latest_price row),
            main_net_ratio := Some (flow_main_net_ratio row),
            today_change := Some (flow_today_change row),
            name := Some (flow_name row) \<rparr>"

text \<open>
  The body of the loop of line 196, on the pair
  \<open>(settled_stocks, updated_care_stocks)\<close> of the two lists it appends to.
\<close>

definition evaluate_stock ::
  "spot_row list \<Rightarrow> flow_row list \<Rightarrow> care_stock \<Rightarrow>
   settled_stock list \<times> care_stock list \<Rightarrow> settled_stock list \<times> care_stock list" where
  "evaluate_stock stock_data main_fund_flow_df stock acc =
     (let (settled_stocks, updated_care_stocks) = acc;
          stock_code = code stock;
          highest_price = highest_price_of stock_data stock_code
      in case flow_lookup main_fund_flow_df stock_code of
           Some row \<Rightarrow>
             (let ratio = flow_main_net_ratio row;
                  current = flow_latest_price row;
                  change = flow_today_change row
              in if num_lt ratio (Num (- 5)) then
                   (settled_stocks @
                      [make_settled stock row
                         (profit_loss_break_even highest_price current (buy_price stock))
                         (Ratio_below_minus5 ratio)],
                    updated_care_stocks)
                 else if num_gt change (Num 10) then
                   (settled_stocks @
                      [make_settled stock row
                         (num_sub current (buy_price stock))
                         (Change_above_10 ratio)],
                    updated_care_stocks)
                 else if num_gt change (Num 0) \<and> num_lt ratio (Num 0) then
                   (settled_stocks @
                      [make_settled stock row
                         (profit_loss_break_even highest_price current (buy_price stock))
                         (Change_above_0_ratio_below_0 ratio ratio)],
                    updated_care_stocks)
                 else (settled_stocks, updated_care_stocks @ [refresh stock row]))
         | None \<Rightarrow> (settled_stocks, updated_care_stocks @ [stock]))"

fun evaluate_care_stocks ::
  "spot_row list \<Rightarrow> flow_row list \<Rightarrow> care_stock list \<Rightarrow>
   settled_stock list \<times> care_stock list \<Rightarrow> settled_stock list \<times> care_stock list" where
  "evaluate_care_stocks stock_data main_fund_flow_df [] acc = acc"
| "evaluate_care_stocks stock_data main_fund_flow_df (stock # rest) acc =
     evaluate_care_stocks stock_data main_fund_flow_df rest
       (evaluate_stock stock_data main_fund_flow_df stock acc)"

section \<open>Candidate ranking: \<^verbatim>\<open>get_main_fund_flow\<close> and line 189\<close>

text \<open>
  \<^verbatim>\<open>Series.str.contains(pat)\<close> for a pattern without regular-expression operators: \<open>pat\<close>
  occurs somewhere in the string.
\<close>

fun str_contains :: "string \<Rightarrow> string \<Rightarrow> bool" where
  "str_contains pat [] = (pat = [])"
| "str_contains pat (c # s) = (take (length pat) (c # s) = pat \<or> str_contains pat s)"

text \<open>\<^verbatim>\<open>.str.contains("ST", na=False)\<close> on a name cell: a missing name gives \<open>False\<close>.\<close>

fun name_contains_ST :: "name_cell \<Rightarrow> bool" where
  "name_contains_ST None = False"
| "name_contains_ST (Some s) = str_contains ''ST'' s"

text \<open>The mask of lines 147 to 152, on one row.\<close>

definition candidate_mask :: "flow_row \<Rightarrow> bool" where
  "candidate_mask r =
     (notna (flow_latest_price r) \<and>
      num_gt (flow_main_net_ratio r) (Num 0) \<and>
      \<not> name_contains_ST (flow_name r) \<and>
      num_lt (flow_today_change r) (Num 0))"

text \<open>
  \<^verbatim>\<open>sort_values(by=..., ascending=False)\<close> on the main-fund net ratio (line 157): the rows
  with a number in the column come first, largest first, and the rows with \<^verbatim>\<open>NaN\<close> there
  come last. pandas leaves the order of rows with equal keys to the sorting algorithm; the
  model keeps them in their order in the frame.
\<close>

fun insert_desc :: "flow_row \<Rightarrow> flow_row list \<Rightarrow> flow_row list" where
  "insert_desc x [] = [x]"
| "insert_desc x (y # ys) =
     (if num_lt (flow_main_net_ratio x) (flow_main_net_ratio y)
      then y # insert_desc x ys else x # y # ys)"

definition sort_values_desc :: "flow_row list \<Rightarrow> flow_row list" where
  "sort_values_desc df =
     foldr insert_desc (filter (\<lambda>r. notna (flow_main_net_ratio r)) df) [] @
     filter (\<lambda>r. \<not> notna (flow_main_net_ratio r)) df"

text \<open>
  Lines 145 to 158 of \<^verbatim>\<open>get_main_fund_flow\<close>, once the fetch has returned the frame
  \<open>df\<close>: the pair \<^verbatim>\<open>(result_df, stock_main_fund_flow_df)\<close>.
\<close>

definition rank_main_fund_flow :: "flow_row list \<Rightarrow> flow_row list \<times> flow_row list" where
  "rank_main_fund_flow df =
     (let filtered_df = filter candidate_mask df;
          result_df = sort_values_desc filtered_df
      in (result_df, df))"

text \<open>Line 189.\<close>

definition top_5_stocks :: "flow_row list \<Rightarrow> string list" where
  "top_5_stocks result_df =
     (if length result_df \<ge> 5 then map flow_code (take 5 result_df) else [])"

section \<open>Adding the candidates: the second loop of \<^verbatim>\<open>analyze_stocks\<close>\<close>

text \<open>
  \<^verbatim>\<open>.iloc[0]\<close> on an empty selection raises \<^verbatim>\<open>IndexError\<close>; line 290 does it unguarded.
\<close>

datatype error = IndexError

text \<open>The dictionary \<^verbatim>\<open>new_stock\<close> of line 295; \<open>now\<close> is \<^verbatim>\<open>self.current_time\<close>.\<close>

definition new_stock :: "string \<Rightarrow> string \<Rightarrow> spot_row \<Rightarrow> flow_row \<Rightarrow> care_stock" where
  "new_stock now stock_code stock_info ranked =
     \<lparr> code = stock_code,
       buy_price = spot_latest_price stock_info,
       start_time = now,
       name = Some (spot_name stock_info),
       current_price = Some (spot_latest_price stock_info),
       main_net_ratio = Some (flow_main_net_ratio ranked),
       today_change = Some (flow_today_change ranked),
       remark = None \<rparr>"

text \<open>The loop of line 281 over \<^verbatim>\<open>top_5_stocks\<close>, on the list \<^verbatim>\<open>updated_care_stocks\<close>.\<close>

fun add_top_stocks ::
  "string \<Rightarrow> spot_row list \<Rightarrow> flow_row list \<Rightarrow> string list \<Rightarrow> care_stock list \<Rightarrow>
   error + care_stock list" where
  "add_top_stocks now stock_data result_df [] updated_care_stocks = Inr updated_care_stocks"
| "add_top_stocks now stock_data result_df (stock_code # rest) updated_care_stocks =
     (if \<not> list_ex (\<lambda>stock. code stock = stock_code) updated_care_stocks then
        (case spot_lookup stock_data stock_code of
           Some stock_info \<Rightarrow>
             (case flow_lookup result_df stock_code of
                Some ranked \<Rightarrow>
                  add_top_stocks now stock_data result_df rest
                    (updated_care_stocks @ [new_stock now stock_code stock_info ranked])
              | None \<Rightarrow> Inl IndexError)
         | None \<Rightarrow> add_top_stocks now stock_data result_df rest updated_care_stocks)
      else add_top_stocks now stock_data result_df rest updated_care_stocks)"

text \<open>
  Lines 189 to 304 of \<^verbatim>\<open>analyze_stocks\<close>: the rule evaluator, from the watch list, the spot
  quotes and the two frames returned by \<^verbatim>\<open>get_main_fund_flow\<close> to the pair of this run's
  settlements and the updated watch list.
\<close>

definition rule_evaluator ::
  "string \<Rightarrow> care_stock list \<Rightarrow> spot_row list \<Rightarrow> flow_row list \<Rightarrow> flow_row list \<Rightarrow>
   error + (settled_stock list \<times> care_stock list)" where
  "rule_evaluator now care_stocks stock_data result_df main_fund_flow_df =
     (let top_5 = top_5_stocks result_df;
          (settled_stocks, updated_care_stocks) =
             evaluate_care_stocks stock_data main_fund_flow_df care_stocks ([], [])
      in case add_top_stocks now stock_data result_df top_5 updated_care_stocks of
           Inl e \<Rightarrow> Inl e
         | Inr updated \<Rightarrow> Inr (settled_stocks, updated))"

section \<open>The files, the data provider and the whole run\<close>

text \<open>
  A file that the program reads inside \<^verbatim>\<open>try\<close>: absent, present but failing to open or
  parse (an empty or cut-off file among others), or present with a content.
\<close>

datatype 'a disk_file = Absent | Unreadable | Content 'a

text \<open>
  How a write inside \<^verbatim>\<open>try\<close> ends (lines 322 to 335, 339 to 351 and 384 to 391):
  \<^item> \<open>Written\<close>: \<^verbatim>\<open>open(..., 'w')\<close> and the write that follows both succeed;
  \<^item> \<open>Open_fails\<close>: \<^verbatim>\<open>open(..., 'w')\<close> raises, and the file is what it was;
  \<^item> \<open>Write_fails\<close>: \<^verbatim>\<open>open(..., 'w')\<close> has emptied the file, and \<^verbatim>\<open>json.dump\<close>,
    \<^verbatim>\<open>f.write\<close> or the copy raises before the content is complete.
  In the last two cases the \<^verbatim>\<open>except\<close> branch logs the error and the method returns.
\<close>

datatype write_outcome = Written | Open_fails | Write_fails

fun write_file :: "write_outcome \<Rightarrow> 'a \<Rightarrow> 'a disk_file \<Rightarrow> 'a disk_file" where
  "write_file Written content old = Content content"
| "write_file Open_fails content old = old"
| "write_file Write_fails content old = Unreadable"

text \<open>
  The object in \<^verbatim>\<open>result.json\<close>. The key \<^verbatim>\<open>settled_stocks\<close> may be absent from an
  object the program reads (\<^verbatim>\<open>data.get('settled_stocks', [])\<close>, line 125).
\<close>

record ledger =
  last_update :: string
  settled_stocks :: "settled_stock list option"

text \<open>
  The report \<^verbatim>\<open>result.md\<close> is a rendering of the time of the run and of the two lists;
  the model keeps what is rendered, not the text.
\<close>

record report =
  report_time :: string
  report_care_stocks :: "care_stock list"
  report_settled_stocks :: "settled_stock list"

text \<open>The three operations of \<^verbatim>\<open>fetch_data_by_ak\<close>.\<close>

datatype ak_method = Trade_calendar | Stock_spot | Main_fund_flow

text \<open>
  What a run starts from and cannot change: the two strings fixed by \<^verbatim>\<open>__init__\<close>, the
  provider and the file system. For each operation the provider gives the outcome of the
  call made in attempt \<open>0, 1, 2, ...\<close>: a table, or \<open>None\<close> when the call raises. The file
  system gives the outcome of each of the four writes of a run: \<^verbatim>\<open>care.json\<close>, its copy
  under \<^verbatim>\<open>data/\<close>, \<^verbatim>\<open>result.json\<close> and \<^verbatim>\<open>result.md\<close>.
\<close>

record env =
  today :: string
  current_time :: string
  tool_trade_date_hist_sina :: "nat \<Rightarrow> string list option"
  stock_zh_a_spot_em :: "nat \<Rightarrow> spot_row list option"
  stock_main_fund_flow :: "nat \<Rightarrow> flow_row list option"
  care_write :: write_outcome
  backup_copy :: write_outcome
  result_json_write :: write_outcome
  result_file_write :: write_outcome

text \<open>
  What a run can change: the watch-list file, its dated copies under \<^verbatim>\<open>data/\<close> (by
  date), the ledger file, the report file, and the calls made to the provider so far.
  The log is not modelled.
\<close>

record world =
  care_file :: "care_stock list disk_file"
  care_backup :: "string \<Rightarrow> care_stock list disk_file"
  result_json :: "ledger disk_file"
  result_file :: "report disk_file"
  ak_calls :: "ak_method list"

text \<open>
  The loop of \<^verbatim>\<open>fetch_data_by_ak\<close> from attempt \<open>attempt\<close> on, with \<open>remaining\<close>
  attempts left. Each attempt makes one call; the first table that comes back is
  returned, and \<open>None\<close> after the last failure. The sleep between attempts is not modelled.
\<close>

fun fetch_loop ::
  "ak_method \<Rightarrow> (nat \<Rightarrow> 'a option) \<Rightarrow> nat \<Rightarrow> nat \<Rightarrow> world \<Rightarrow> 'a option \<times> world" where
  "fetch_loop m call attempt 0 w = (None, w)"
| "fetch_loop m call attempt (Suc remaining) w =
     (let w' = w\<lparr>ak_calls := ak_calls w @ [m]\<rparr> in
      case call attempt of
        Some data \<Rightarrow> (Some data, w')
      | None \<Rightarrow> fetch_loop m call (Suc attempt) remaining w')"

definition fetch_data_by_ak ::
  "ak_method \<Rightarrow> (nat \<Rightarrow> 'a option) \<Rightarrow> nat \<Rightarrow> world \<Rightarrow> 'a option \<times> world" where
  "fetch_data_by_ak m call max_retries w = fetch_loop m call 0 max_retries w"

definition get_trade_calendar :: "env \<Rightarrow> world \<Rightarrow> string list option \<times> world" where
  "get_trade_calendar e w = fetch_data_by_ak Trade_calendar (tool_trade_date_hist_sina e) 3 w"

definition is_trading_day :: "env \<Rightarrow> world \<Rightarrow> bool \<times> world" where
  "is_trading_day e w =
     (let (trade_calendar, w') = get_trade_calendar e w in
      case trade_calendar of
        None \<Rightarrow> (False, w')
      | Some trading_days \<Rightarrow> (today e \<in> set trading_days, w'))"

definition load_care_stocks :: "world \<Rightarrow> care_stock list" where
  "load_care_stocks w = (case care_file w of Content care_stocks \<Rightarrow> care_stocks | _ \<Rightarrow> [])"

definition load_previous_settlements :: "world \<Rightarrow> settled_stock list" where
  "load_previous_settlements w =
     (case result_json w of
        Content data \<Rightarrow> (case settled_stocks data of Some l \<Rightarrow> l | None \<Rightarrow> [])
      | _ \<Rightarrow> [])"

definition get_stock_data :: "env \<Rightarrow> world \<Rightarrow> spot_row list option \<times> world" where
  "get_stock_data e w = fetch_data_by_ak Stock_spot (stock_zh_a_spot_em e) 3 w"

text \<open>
  \<^verbatim>\<open>get_main_fund_flow\<close>: \<open>None\<close> stands for the pair \<^verbatim>\<open>(None, None)\<close> of line 143, and
  \<open>Some (result_df, df)\<close> for the pair of frames of line 158.
\<close>

definition get_main_fund_flow ::
  "env \<Rightarrow> world \<Rightarrow> (flow_row list \<times> flow_row list) option \<times> world" where
  "get_main_fund_flow e w =
     (let (stock_main_fund_flow_df, w') =
            fetch_data_by_ak Main_fund_flow (stock_main_fund_flow e) 3 w
      in case stock_main_fund_flow_df of
           None \<Rightarrow> (None, w')
         | Some df \<Rightarrow> (Some (rank_main_fund_flow df), w'))"

text \<open>
  \<^verbatim>\<open>save_care_stocks\<close>: the copy to \<^verbatim>\<open>data/care_{today}.json\<close> of line 329 is reached only
  when the write of \<^verbatim>\<open>care.json\<close> has succeeded, and copies what was written.
\<close>

definition save_care_stocks :: "env \<Rightarrow> care_stock list \<Rightarrow> world \<Rightarrow> world" where
  "save_care_stocks e care_stocks w =
     (case care_write e of
        Written \<Rightarrow>
          w\<lparr> care_file := Content care_stocks,
             care_backup := (care_backup w)
               (today e := write_file (backup_copy e) care_stocks (care_backup w (today e))) \<rparr>
      | Open_fails \<Rightarrow> w
      | Write_fails \<Rightarrow> w\<lparr> care_file := Unreadable \<rparr>)"

text \<open>\<^verbatim>\<open>save_settlements_to_json\<close>: the object \<^verbatim>\<open>result_data\<close> and its write.\<close>

definition save_settlements_to_json :: "env \<Rightarrow> settled_stock list \<Rightarrow> world \<Rightarrow> world" where
  "save_settlements_to_json e all_settled w =
     (let result_data = \<lparr> last_update = current_time e, settled_stocks = Some all_settled \<rparr>
      in w\<lparr> result_json := write_file (result_json_write e) result_data (result_json w) \<rparr>)"

text \<open>\<^verbatim>\<open>save_result_report\<close>: what \<^verbatim>\<open>content\<close> renders, and its write.\<close>

definition save_result_report ::
  "env \<Rightarrow> care_stock list \<Rightarrow> settled_stock list \<Rightarrow> world \<Rightarrow> world" where
  "save_result_report e care_stocks all_settled w =
     (let content = \<lparr> report_time = current_time e,
                      report_care_stocks = care_stocks,
                      report_settled_stocks = all_settled \<rparr>
      in w\<lparr> result_file := write_file (result_file_write e) content (result_file w) \<rparr>)"

text \<open>
  \<^verbatim>\<open>analyze_stocks\<close>. \<open>Inr w\<close> is a normal return in world \<open>w\<close>, \<open>Inl e\<close> an exception
  that leaves the method.
\<close>

definition analyze_stocks :: "env \<Rightarrow> world \<Rightarrow> error + world" where
  "analyze_stocks e w =
     (let (trading, w1) = is_trading_day e w in
      if \<not> trading then Inr w1
      else
        let care_stocks = load_care_stocks w1;
            (stock_data, w2) = get_stock_data e w1
        in case stock_data of
             None \<Rightarrow> Inr w2
           | Some spot \<Rightarrow>
               (let (frames, w3) = get_main_fund_flow e w2 in
                case frames of
                  None \<Rightarrow> Inr w3
                | Some (result_df, main_fund_flow_df) \<Rightarrow>
                    (case rule_evaluator (current_time e) care_stocks spot
                            result_df main_fund_flow_df of
                       Inl err \<Rightarrow> Inl err
                     | Inr (settled, updated) \<Rightarrow>
                         (let previous_settlements = load_previous_settlements w3;
                              all_settled = previous_settlements @ settled
                          in Inr (save_result_report e updated all_settled
                                   (save_settlements_to_json e all_settled
                                     (save_care_stocks e updated w3)))))))"

section \<open>Concrete inputs\<close>

definition ex_stock :: care_stock where
  "ex_stock = \<lparr> code = ''600000'', buy_price = Num 10, start_time = ''2024-01-02 15:30:00'',
       name = None, current_price = None, main_net_ratio = None, today_change = None,
       remark = None \<rparr>"

definition ex_row :: flow_row where
  "ex_row = \<lparr> flow_code = ''600000'', flow_name = Some ''PF Bank'',
       flow_latest_price = Num 12, flow_main_net_ratio = Num (- 6),
       flow_today_change = Num 2 \<rparr>"

definition ex_row_2 :: flow_row where
  "ex_row_2 = \<lparr> flow_code = ''600000'', flow_name = Some ''PF Bank'',
       flow_latest_price = Num 9, flow_main_net_ratio = Num 1,
       flow_today_change = Num 11 \<rparr>"

definition ex_spot :: spot_row where
  "ex_spot = \<lparr> spot_code = ''600000'', spot_name = Some ''PF Bank'',
       spot_latest_price = Num 9, spot_highest = Num 13 \<rparr>"

definition ex_row_other :: flow_row where
  "ex_row_other = \<lparr> flow_code = ''000001'', flow_name = Some ''PA Bank'',
       flow_latest_price = Num 9, flow_main_net_ratio = Num (- 7),
       flow_today_change = Num 11 \<rparr>"




definition ex_spot_low :: spot_row where
  "ex_spot_low = \<lparr> spot_code = ''600000'', spot_name = Some ''PF Bank'',
       spot_latest_price = Num 8, spot_highest = Num 9 \<rparr>"

definition ex_row_6 :: flow_row where
  "ex_row_6 = \<lparr> flow_code = ''600000'', flow_name = Some ''PF Bank'',
       flow_latest_price = Num 8, flow_main_net_ratio = Num (- 6),
       flow_today_change = Num (- 2) \<rparr>"

definition ex_flow :: "string \<Rightarrow> string \<Rightarrow> real \<Rightarrow> real \<Rightarrow> flow_row" where
  "ex_flow c n ratio change = \<lparr> flow_code = c, flow_name = Some n,
       flow_latest_price = Num 10, flow_main_net_ratio = Num ratio,
       flow_today_change = Num change \<rparr>"

definition ex_ranking :: "flow_row list" where
  "ex_ranking =
     [ex_flow ''000001'' ''A'' 3 (- 1), ex_flow ''000002'' ''B'' 9 (- 1),
      ex_flow ''000003'' ''*ST C'' 20 (- 1), ex_flow ''000004'' ''D'' 1 (- 2),
      ex_flow ''000005'' ''E'' 7 (- 1), ex_flow ''000006'' ''F'' 5 (- 3),
      ex_flow ''000007'' ''G'' 8 2, ex_flow ''000008'' ''H'' 4 (- 1)]"

definition ex_world :: world where
  "ex_world = \<lparr> care_file = Content [ex_stock], care_backup = (\<lambda>d. Absent),
       result_json = Absent, result_file = Absent, ak_calls = [] \<rparr>"

definition ex_env_no_calendar :: env where
  "ex_env_no_calendar = \<lparr> today = ''2024-01-03'', current_time = ''2024-01-03 15:30:00'',
       tool_trade_date_hist_sina = (\<lambda>attempt. None),
       stock_zh_a_spot_em = (\<lambda>attempt. Some [ex_spot]),
       stock_main_fund_flow = (\<lambda>attempt. Some [ex_row]),
       care_write = Written, backup_copy = Written, result_json_write = Written,
       result_file_write = Written \<rparr>"

definition ex_env_retry :: env where
  "ex_env_retry = \<lparr> today = ''2024-01-03'', current_time = ''2024-01-03 15:30:00'',
       tool_trade_date_hist_sina =
         (\<lambda>attempt. if attempt < 2 then None else Some [''2024-01-02'', ''2024-01-03'']),
       stock_zh_a_spot_em = (\<lambda>attempt. Some [ex_spot]),
       stock_main_fund_flow = (\<lambda>attempt. Some [ex_row]),
       care_write = Written, backup_copy = Written, result_json_write = Written,
       result_file_write = Written \<rparr>"

definition ex_env_holiday :: env where
  "ex_env_holiday = \<lparr> today = ''2024-01-06'', current_time = ''2024-01-06 15:30:00'',
       tool_trade_date_hist_sina = (\<lambda>attempt. Some [''2024-01-05'', ''2024-01-08'']),
       stock_zh_a_spot_em = (\<lambda>attempt. Some [ex_spot]),
       stock_main_fund_flow = (\<lambda>attempt. Some [ex_row]),
       care_write = Written, backup_copy = Written, result_json_write = Written,
       result_file_write = Written \<rparr>"

definition ex_env_no_flow :: env where
  "ex_env_no_flow = \<lparr> today = ''2024-01-03'', current_time = ''2024-01-03 15:30:00'',
       tool_trade_date_hist_sina = (\<lambda>attempt. Some [''2024-01-02'', ''2024-01-03'']),
       stock_zh_a_spot_em = (\<lambda>attempt. Some [ex_spot]),
       stock_main_fund_flow = (\<lambda>attempt. None),
       care_write = Written, backup_copy = Written, result_json_write = Written,
       result_file_write = Written \<rparr>"

definition ex_old_settled :: settled_stock where
  "ex_old_settled = \<lparr> settled_code = ''000001'', settled_name = Some ''PA Bank'',
       settled_buy_price = Num 9, settled_start_time = ''2023-12-01 15:30:00'',
       settled_current_price = Num 8, settled_main_net_ratio = Num (- 7),
       settled_today_change = Num (- 1), settled_profit_loss = Num (- 1),
       settled_remark = Ratio_below_minus5 (Num (- 7)) \<rparr>"

definition ex_world_ledger :: world where
  "ex_world_ledger = \<lparr> care_file = Content [ex_stock], care_backup = (\<lambda>d. Absent),
       result_json = Content \<lparr> last_update = ''2024-01-02 15:30:00'',
                               settled_stocks = Some [ex_old_settled, ex_old_settled] \<rparr>,
       result_file = Absent, ak_calls = [] \<rparr>"

definition ex_spot_of :: "string \<Rightarrow> real \<Rightarrow> spot_row" where
  "ex_spot_of c price = \<lparr> spot_code = c, spot_name = Some ''N'',
       spot_latest_price = Num price, spot_highest = Num price \<rparr>"

definition ex_spots :: "spot_row list" where
  "ex_spots = [ex_spot_of ''000001'' 11, ex_spot_of ''000002'' 12, ex_spot_of ''000005'' 15,
               ex_spot_of ''000006'' 16, ex_spot_of ''000008'' 18]"

definition ex_stock_of :: "string \<Rightarrow> care_stock" where
  "ex_stock_of c = \<lparr> code = c, buy_price = Num 10, start_time = ''2024-01-02 15:30:00'',
       name = None, current_price = None, main_net_ratio = None, today_change = None,
       remark = None \<rparr>"

definition ex_ranking_twice :: "flow_row list" where
  "ex_ranking_twice = ex_ranking @ [ex_flow ''000002'' ''B'' 6 (- 1)]"

section \<open>Properties of the two loops\<close>

lemma evaluate_stock_acc:
  "evaluate_stock sd fd s (st, up) =
     (st @ fst (evaluate_stock sd fd s ([], [])), up @ snd (evaluate_stock sd fd s ([], [])))"
  by (simp add: evaluate_stock_def Let_def split: option.split)

lemma evaluate_care_stocks_acc:
  "evaluate_care_stocks sd fd xs (st, up) =
     (st @ concat (map (\<lambda>s. fst (evaluate_stock sd fd s ([], []))) xs),
      up @ concat (map (\<lambda>s. snd (evaluate_stock sd fd s ([], []))) xs))"
proof (induction xs arbitrary: st up)
  case Nil
  show ?case by simp
next
  case (Cons s xs)
  show ?case
    by (subst evaluate_care_stocks.simps, subst evaluate_stock_acc, subst Cons.IH) simp
qed

lemma evaluate_stock_codes:
  "map code (snd (evaluate_stock sd fd s ([], []))) = [] \<or>
   map code (snd (evaluate_stock sd fd s ([], []))) = [code s]"
  by (simp add: evaluate_stock_def Let_def refresh_def split: option.split)

lemma evaluate_stock_settled_code:
  "r \<in> set (fst (evaluate_stock sd fd s ([], []))) \<Longrightarrow> settled_code r = code s"
  by (auto simp add: evaluate_stock_def Let_def make_settled_def split: option.splits if_splits)


lemma flow_lookup_member:
  "c \<in> flow_code ` set df \<Longrightarrow> \<exists>r. flow_lookup df c = Some r"
  by (cases "flow_lookup df c") (auto simp add: flow_lookup_def find_None_iff)

lemma flow_lookup_None:
  "flow_lookup df c = None \<longleftrightarrow> c \<notin> flow_code ` set df"
  by (auto simp add: flow_lookup_def find_None_iff)

lemma add_top_stocks_total:
  "set codes \<subseteq> flow_code ` set rdf \<Longrightarrow> \<exists>u. add_top_stocks now sd rdf codes up = Inr u"
proof (induction codes arbitrary: up)
  case Nil
  show ?case by simp
next
  case (Cons c cs)
  from Cons.prems obtain r where r: "flow_lookup rdf c = Some r"
    using flow_lookup_member by fastforce
  from Cons.prems have "set cs \<subseteq> flow_code ` set rdf" by simp
  with Cons.IH r show ?case
    by (simp split: option.split)
qed

lemma add_top_stocks_extends:
  "add_top_stocks now sd rdf codes up = Inr u \<Longrightarrow> \<exists>extra. u = up @ extra"
proof (induction codes arbitrary: up)
  case Nil
  then show ?case by simp
next
  case (Cons c cs)
  then show ?case
    by (fastforce split: option.splits if_splits)
qed

lemma add_top_stocks_distinct:
  "distinct (map code up) \<Longrightarrow> add_top_stocks now sd rdf codes up = Inr u \<Longrightarrow>
   distinct (map code u)"
proof (induction codes arbitrary: up)
  case Nil
  then show ?case by simp
next
  case (Cons c cs)
  show ?case
  proof (cases "list_ex (\<lambda>stock. code stock = c) up")
    case True
    with Cons.prems(2) have "add_top_stocks now sd rdf cs up = Inr u" by simp
    with Cons.IH Cons.prems(1) show ?thesis by blast
  next
    case False
    then have fresh: "c \<notin> code ` set up" by (auto simp add: list_ex_iff)
    show ?thesis
    proof (cases "spot_lookup sd c")
      case None
      with False Cons.prems(2) have "add_top_stocks now sd rdf cs up = Inr u" by simp
      with Cons.IH Cons.prems(1) show ?thesis by blast
    next
      case (Some info)
      show ?thesis
      proof (cases "flow_lookup rdf c")
        case None
        with False Some Cons.prems(2) show ?thesis by simp
      next
        case (Some ranked)
        with False \<open>spot_lookup sd c = Some info\<close> Cons.prems(2)
        have run: "add_top_stocks now sd rdf cs (up @ [new_stock now c info ranked]) = Inr u"
          by simp
        have "distinct (map code (up @ [new_stock now c info ranked]))"
          using Cons.prems(1) fresh by (simp add: new_stock_def)
        with Cons.IH run show ?thesis by blast
      qed
    qed
  qed
qed

lemma top_5_stocks_subset: "set (top_5_stocks rdf) \<subseteq> flow_code ` set rdf"
  by (auto simp add: top_5_stocks_def dest: in_set_takeD)

lemma rule_evaluator_total:
  "\<exists>updated. rule_evaluator now care sd rdf df =
     Inr (fst (evaluate_care_stocks sd df care ([], [])), updated) \<and>
     (\<exists>extra. updated = snd (evaluate_care_stocks sd df care ([], [])) @ extra)"
proof -
  let ?ev = "evaluate_care_stocks sd df care ([], [])"
  obtain u where u: "add_top_stocks now sd rdf (top_5_stocks rdf) (snd ?ev) = Inr u"
    using add_top_stocks_total [OF top_5_stocks_subset] by blast
  from add_top_stocks_extends [OF u] obtain extra where "u = snd ?ev @ extra" by blast
  with u show ?thesis
    by (simp add: rule_evaluator_def Let_def split_beta)
qed


lemma evaluate_care_stocks_fst:
  "set (fst (evaluate_care_stocks sd fd care ([], []))) =
     (\<Union>s\<in>set care. set (fst (evaluate_stock sd fd s ([], []))))"
  by (simp add: evaluate_care_stocks_acc)

lemma evaluate_care_stocks_snd:
  "set (snd (evaluate_care_stocks sd fd care ([], []))) =
     (\<Union>s\<in>set care. set (snd (evaluate_stock sd fd s ([], []))))"
  by (simp add: evaluate_care_stocks_acc)

section \<open>The settlement rules\<close>

text \<open>
  What the second loop appends: entries under codes of the candidate list, dated with
  the time of the run and bought at the latest price of the spot quotes.
\<close>

lemma add_top_stocks_new:
  "add_top_stocks now sd rdf codes up = Inr u \<Longrightarrow>
   \<exists>extra. u = up @ extra \<and>
     (\<forall>s\<in>set extra. code s \<in> set codes \<and> start_time s = now \<and>
        (\<exists>stock_info. spot_lookup sd (code s) = Some stock_info \<and>
           buy_price s = spot_latest_price stock_info))"
proof (induction codes arbitrary: up)
  case Nil
  then show ?case by simp
next
  case (Cons c cs)
  show ?case
  proof (cases "list_ex (\<lambda>stock. code stock = c) up")
    case True
    with Cons.prems have "add_top_stocks now sd rdf cs up = Inr u" by simp
    from Cons.IH [OF this] show ?thesis by auto
  next
    case False
    show ?thesis
    proof (cases "spot_lookup sd c")
      case None
      with False Cons.prems have "add_top_stocks now sd rdf cs up = Inr u" by simp
      from Cons.IH [OF this] show ?thesis by auto
    next
      case (Some info)
      show ?thesis
      proof (cases "flow_lookup rdf c")
        case None
        with False Some Cons.prems show ?thesis by simp
      next
        case (Some ranked)
        let ?new = "new_stock now c info ranked"
        from False \<open>spot_lookup sd c = Some info\<close> Some Cons.prems
        have "add_top_stocks now sd rdf cs (up @ [?new]) = Inr u" by simp
        from Cons.IH [OF this] obtain extra where
          u: "u = (up @ [?new]) @ extra"
          and rest: "\<forall>s\<in>set extra. code s \<in> set cs \<and> start_time s = now \<and>
            (\<exists>stock_info. spot_lookup sd (code s) = Some stock_info \<and>
               buy_price s = spot_latest_price stock_info)"
          by blast
        have new: "code ?new = c \<and> start_time ?new = now \<and>
            buy_price ?new = spot_latest_price info"
          by (simp add: new_stock_def)
        have "u = up @ (?new # extra)" using u by simp
        moreover have "\<forall>s\<in>set (?new # extra). code s \<in> set (c # cs) \<and> start_time s = now \<and>
            (\<exists>stock_info. spot_lookup sd (code s) = Some stock_info \<and>
               buy_price s = spot_latest_price stock_info)"
          using rest new \<open>spot_lookup sd c = Some info\<close> by auto
        ultimately show ?thesis by blast
      qed
    qed
  qed
qed

lemma rule_evaluator_result:
  "\<exists>extra. rule_evaluator now care sd rdf df =
       Inr (fst (evaluate_care_stocks sd df care ([], [])),
            snd (evaluate_care_stocks sd df care ([], [])) @ extra) \<and>
     (\<forall>s\<in>set extra. code s \<in> set (top_5_stocks rdf) \<and> start_time s = now \<and>
        (\<exists>stock_info. spot_lookup sd (code s) = Some stock_info \<and>
           buy_price s = spot_latest_price stock_info))"
proof -
  let ?ev = "evaluate_care_stocks sd df care ([], [])"
  obtain u where u: "add_top_stocks now sd rdf (top_5_stocks rdf) (snd ?ev) = Inr u"
    using add_top_stocks_total [OF top_5_stocks_subset] by blast
  from add_top_stocks_new [OF u] obtain extra where
    "u = snd ?ev @ extra"
    "\<forall>s\<in>set extra. code s \<in> set (top_5_stocks rdf) \<and> start_time s = now \<and>
        (\<exists>stock_info. spot_lookup sd (code s) = Some stock_info \<and>
           buy_price s = spot_latest_price stock_info)"
    by blast
  moreover have "rule_evaluator now care sd rdf df = Inr (fst ?ev, u)"
    using u by (simp add: rule_evaluator_def Let_def split_beta)
  ultimately show ?thesis by blast
qed

text \<open>
  A settlement of the first loop comes from a watched entry of its code, and a code whose
  entries are all settled is on no entry that the first loop keeps.
\<close>

lemma settled_member:
  assumes "r \<in> set (fst (evaluate_care_stocks sd df care ([], [])))"
  shows "\<exists>s\<in>set care. r \<in> set (fst (evaluate_stock sd df s ([], []))) \<and>
           code s = settled_code r"
proof -
  from assms obtain s where "s \<in> set care" "r \<in> set (fst (evaluate_stock sd df s ([], [])))"
    unfolding evaluate_care_stocks_fst by blast
  with evaluate_stock_settled_code [of r sd df s] show ?thesis by auto
qed

lemma settled_code_not_kept:
  assumes "\<And>s. s \<in> set care \<Longrightarrow> code s = c \<Longrightarrow> snd (evaluate_stock sd df s ([], [])) = []"
  shows "\<forall>x\<in>set (snd (evaluate_care_stocks sd df care ([], []))). code x \<noteq> c"
proof
  fix x assume "x \<in> set (snd (evaluate_care_stocks sd df care ([], [])))"
  then obtain s where s: "s \<in> set care" "x \<in> set (snd (evaluate_stock sd df s ([], [])))"
    unfolding evaluate_care_stocks_snd by blast
  show "code x \<noteq> c"
  proof
    assume c: "code x = c"
    from s(2) evaluate_stock_codes [of sd df s] have "code x = code s" by auto
    with c assms [OF s(1)] s(2) show False by simp
  qed
qed

text \<open>
  The two nested tests of lines 218 and 219 as one: the override needs a day's high that
  was found, is not \<open>0\<close> and is above the buy price.
\<close>

lemma profit_loss_break_even_cases:
  "profit_loss_break_even highest price buy =
     (case highest of
        Some h \<Rightarrow> if h \<noteq> Num 0 \<and> num_gt h buy then Num 0 else num_sub price buy
      | None \<Rightarrow> num_sub price buy)"
proof (cases highest)
  case None
  then show ?thesis by (simp add: profit_loss_break_even_def)
next
  case (Some h)
  then show ?thesis by (cases h) (simp_all add: profit_loss_break_even_def Let_def)
qed

text \<open>
  The three settling branches of the loop body, with the record they append spelled out
  field by field. None of them appends to the watch list.
\<close>

lemma rule_1_body:
  assumes "flow_lookup df (code s) = Some row"
    and "num_lt (flow_main_net_ratio row) (Num (- 5))"
  shows "evaluate_stock sd df s (st, up) =
     (st @ [\<lparr> settled_code = code s, settled_name = flow_name row,
               settled_buy_price = buy_price s, settled_start_time = start_time s,
               settled_current_price = flow_latest_price row,
               settled_main_net_ratio = flow_main_net_ratio row,
               settled_today_change = flow_today_change row,
               settled_profit_loss =
                 (case highest_price_of sd (code s) of
                    Some h \<Rightarrow>
                      if h \<noteq> Num 0 \<and> num_gt h (buy_price s) then Num 0
                      else num_sub (flow_latest_price row) (buy_price s)
                  | None \<Rightarrow> num_sub (flow_latest_price row) (buy_price s)),
               settled_remark = Ratio_below_minus5 (flow_main_net_ratio row) \<rparr>],
      up)"
  using assms
  by (simp add: evaluate_stock_def Let_def make_settled_def profit_loss_break_even_cases)

lemma rule_2_body:
  assumes "flow_lookup df (code s) = Some row"
    and "\<not> num_lt (flow_main_net_ratio row) (Num (- 5))"
    and "num_gt (flow_today_change row) (Num 10)"
  shows "evaluate_stock sd df s (st, up) =
     (st @ [\<lparr> settled_code = code s, settled_name = flow_name row,
               settled_buy_price = buy_price s, settled_start_time = start_time s,
               settled_current_price = flow_latest_price row,
               settled_main_net_ratio = flow_main_net_ratio row,
               settled_today_change = flow_today_change row,
               settled_profit_loss = num_sub (flow_latest_price row) (buy_price s),
               settled_remark = Change_above_10 (flow_main_net_ratio row) \<rparr>],
      up)"
  using assms
  by (simp add: evaluate_stock_def Let_def make_settled_def)

lemma rule_3_body:
  assumes "flow_lookup df (code s) = Some row"
    and "\<not> num_lt (flow_main_net_ratio row) (Num (- 5))"
    and "\<not> num_gt (flow_today_change row) (Num 10)"
    and "num_gt (flow_today_change row) (Num 0)"
    and "num_lt (flow_main_net_ratio row) (Num 0)"
  shows "evaluate_stock sd df s (st, up) =
     (st @ [\<lparr> settled_code = code s, settled_name = flow_name row,
               settled_buy_price = buy_price s, settled_start_time = start_time s,
               settled_current_price = flow_latest_price row,
               settled_main_net_ratio = flow_main_net_ratio row,
               settled_today_change = flow_today_change row,
               settled_profit_loss =
                 (case highest_price_of sd (code s) of
                    Some h \<Rightarrow>
                      if h \<noteq> Num 0 \<and> num_gt h (buy_price s) then Num 0
                      else num_sub (flow_latest_price row) (buy_price s)
                  | None \<Rightarrow> num_sub (flow_latest_price row) (buy_price s)),
               settled_remark =
                 Change_above_0_ratio_below_0 (flow_main_net_ratio row)
                   (flow_main_net_ratio row) \<rparr>],
      up)"
  using assms
  by (simp add: evaluate_stock_def Let_def make_settled_def profit_loss_break_even_cases)

text \<open>
  Claim C1. A watched instrument whose row of the fund-flow ranking has a main-fund net
  ratio below \<open>-5\<close>, and also today's change above \<open>0\<close> with a ratio below \<open>0\<close>, is
  settled by rule 1. The body of the loop appends the record of rule 1 to the settlements
  (the entry's code, buy price and start time, the row's name, latest price, ratio and
  change, the profit or loss of lines 217 to 220, the remark of line 231 with the ratio)
  and leaves the watch list as it is. The run of the rule evaluator returns; its
  settlements hold this record; every settlement of the run with this code carries the
  remark of rule 1, never the one of rule 3, and the profit or loss of rule 1; no entry
  kept by the first loop has this code, and the updated watch list is the kept entries
  followed by entries that the second loop has made for codes of the candidate list: the
  instrument is on the updated watch list only if the second loop adds its code anew.
\<close>

theorem rule_1_wins_over_rule_3:
  fixes stock :: care_stock and row :: flow_row and sd :: "spot_row list"
  defines "record_1 \<equiv>
     \<lparr> settled_code = code stock, settled_name = flow_name row,
       settled_buy_price = buy_price stock, settled_start_time = start_time stock,
       settled_current_price = flow_latest_price row,
       settled_main_net_ratio = flow_main_net_ratio row,
       settled_today_change = flow_today_change row,
       settled_profit_loss =
         (case highest_price_of sd (code stock) of
            Some h \<Rightarrow>
              if h \<noteq> Num 0 \<and> num_gt h (buy_price stock) then Num 0
              else num_sub (flow_latest_price row) (buy_price stock)
          | None \<Rightarrow> num_sub (flow_latest_price row) (buy_price stock)),
       settled_remark = Ratio_below_minus5 (flow_main_net_ratio row) \<rparr>"
  assumes "stock \<in> set care_stocks"
    and "flow_lookup df (code stock) = Some row"
    and "num_lt (flow_main_net_ratio row) (Num (- 5))"
    and "num_gt (flow_today_change row) (Num 0)"
    and "num_lt (flow_main_net_ratio row) (Num 0)"
  shows "evaluate_stock sd df stock (st, up) = (st @ [record_1], up) \<and>
     (\<exists>settled updated extra.
        rule_evaluator now care_stocks sd result_df df = Inr (settled, updated) \<and>
        record_1 \<in> set settled \<and>
        (\<forall>r\<in>set settled. settled_code r = code stock \<longrightarrow>
           settled_remark r = Ratio_below_minus5 (flow_main_net_ratio row) \<and>
           (\<forall>a b. settled_remark r \<noteq> Change_above_0_ratio_below_0 a b) \<and>
           settled_current_price r = flow_latest_price row \<and>
           settled_profit_loss r =
             (case highest_price_of sd (code stock) of
                Some h \<Rightarrow>
                  if h \<noteq> Num 0 \<and> num_gt h (settled_buy_price r) then Num 0
                  else num_sub (flow_latest_price row) (settled_buy_price r)
              | None \<Rightarrow> num_sub (flow_latest_price row) (settled_buy_price r))) \<and>
        updated = snd (evaluate_care_stocks sd df care_stocks ([], [])) @ extra \<and>
        (\<forall>s\<in>set (snd (evaluate_care_stocks sd df care_stocks ([], []))).
           code s \<noteq> code stock) \<and>
        (\<forall>s\<in>set extra. code s \<in> set (top_5_stocks result_df) \<and> start_time s = now) \<and>
        (code stock \<notin> set (top_5_stocks result_df) \<longrightarrow>
           (\<forall>s\<in>set updated. code s \<noteq> code stock)))"
proof -
  let ?ev = "evaluate_care_stocks sd df care_stocks ([], [])"
  have body: "evaluate_stock sd df stock (st, up) = (st @ [record_1], up)" for st up
    unfolding record_1_def by (rule rule_1_body [OF assms(3,4)])
  obtain extra where run: "rule_evaluator now care_stocks sd result_df df =
       Inr (fst ?ev, snd ?ev @ extra)"
    and extra: "\<forall>s\<in>set extra. code s \<in> set (top_5_stocks result_df) \<and> start_time s = now"
    using rule_evaluator_result [of now care_stocks sd result_df df] by blast
  have "record_1 \<in> set (fst (evaluate_stock sd df stock ([], [])))"
    by (simp add: body)
  with assms(2) have mem: "record_1 \<in> set (fst ?ev)"
    unfolding evaluate_care_stocks_fst by blast
  have all: "settled_remark r = Ratio_below_minus5 (flow_main_net_ratio row) \<and>
           (\<forall>a b. settled_remark r \<noteq> Change_above_0_ratio_below_0 a b) \<and>
           settled_current_price r = flow_latest_price row \<and>
           settled_profit_loss r =
             (case highest_price_of sd (code stock) of
                Some h \<Rightarrow>
                  if h \<noteq> Num 0 \<and> num_gt h (settled_buy_price r) then Num 0
                  else num_sub (flow_latest_price row) (settled_buy_price r)
              | None \<Rightarrow> num_sub (flow_latest_price row) (settled_buy_price r))"
    if "r \<in> set (fst ?ev)" and "settled_code r = code stock" for r
  proof -
    from settled_member [OF that(1)] that(2) obtain s where
      r: "r \<in> set (fst (evaluate_stock sd df s ([], [])))" and c: "code s = code stock"
      by auto
    from c assms(3) have "flow_lookup df (code s) = Some row" by simp
    from rule_1_body [OF this assms(4), of sd "[]" "[]"] r c show ?thesis
      by (simp split: option.split)
  qed
  have gone: "\<forall>s\<in>set (snd ?ev). code s \<noteq> code stock"
  proof (rule settled_code_not_kept)
    fix s assume "s \<in> set care_stocks" "code s = code stock"
    with assms(3) have "flow_lookup df (code s) = Some row" by simp
    from rule_1_body [OF this assms(4), of sd "[]" "[]"]
    show "snd (evaluate_stock sd df s ([], [])) = []" by simp
  qed
  have left: "code stock \<notin> set (top_5_stocks result_df) \<longrightarrow>
           (\<forall>s\<in>set (snd ?ev @ extra). code s \<noteq> code stock)"
    using gone extra by auto
  from body run mem all gone extra left show ?thesis by blast
qed

text \<open>
  An instrument bought at 10, now at 12 after a day's high of 9, with ratio \<open>-6\<close> and
  change \<open>+2\<close>; no candidate is taken from the one-row ranking.
\<close>

theorem rule_1_wins_over_rule_3_witness:
  "ex_stock \<in> set [ex_stock] \<and>
   flow_lookup [ex_row] (code ex_stock) = Some ex_row \<and>
   num_lt (flow_main_net_ratio ex_row) (Num (- 5)) \<and>
   num_gt (flow_today_change ex_row) (Num 0) \<and>
   num_lt (flow_main_net_ratio ex_row) (Num 0) \<and>
   code ex_stock \<notin> set (top_5_stocks (fst (rank_main_fund_flow [ex_row]))) \<and>
   (\<exists>settled updated.
      rule_evaluator ''2024-01-03 15:30:00'' [ex_stock] [ex_spot_low]
        (fst (rank_main_fund_flow [ex_row])) [ex_row] = Inr (settled, updated) \<and>
      (\<exists>r\<in>set settled. settled_code r = code ex_stock) \<and>
      (\<forall>r\<in>set settled. settled_code r = code ex_stock \<longrightarrow>
         settled_remark r = Ratio_below_minus5 (flow_main_net_ratio ex_row)) \<and>
      (\<forall>s\<in>set updated. code s \<noteq> code ex_stock))"
proof -
  have h: "ex_stock \<in> set [ex_stock]"
    "flow_lookup [ex_row] (code ex_stock) = Some ex_row"
    "num_lt (flow_main_net_ratio ex_row) (Num (- 5))"
    "num_gt (flow_today_change ex_row) (Num 0)"
    "num_lt (flow_main_net_ratio ex_row) (Num 0)"
    by (simp_all add: ex_stock_def ex_row_def flow_lookup_def num_gt_def)
  have top: "code ex_stock \<notin> set (top_5_stocks (fst (rank_main_fund_flow [ex_row])))"
    by (simp add: top_5_stocks_def rank_main_fund_flow_def sort_values_desc_def Let_def)
  from rule_1_wins_over_rule_3
    [OF h, where sd = "[ex_spot_low]" and st = "[]" and up = "[]"
      and now = "''2024-01-03 15:30:00''"
      and result_df = "fst (rank_main_fund_flow [ex_row])"]
  obtain settled updated r where
    run: "rule_evaluator ''2024-01-03 15:30:00'' [ex_stock] [ex_spot_low]
        (fst (rank_main_fund_flow [ex_row])) [ex_row] = Inr (settled, updated)"
    and r: "r \<in> set settled" "settled_code r = code ex_stock"
    and rem: "\<forall>r\<in>set settled. settled_code r = code ex_stock \<longrightarrow>
         settled_remark r = Ratio_below_minus5 (flow_main_net_ratio ex_row)"
    and left: "code ex_stock \<notin> set (top_5_stocks (fst (rank_main_fund_flow [ex_row]))) \<longrightarrow>
         (\<forall>s\<in>set updated. code s \<noteq> code ex_stock)"
    by (elim conjE exE) (rule that, assumption, assumption, simp, blast, assumption)
  from left top have "\<forall>s\<in>set updated. code s \<noteq> code ex_stock" by blast
  with run r rem h top show ?thesis by blast
qed

text \<open>
  The same run, evaluated.
\<close>

lemma rule_1_example:
  "rule_evaluator ''2024-01-03 15:30:00'' [ex_stock] [ex_spot_low]
     (fst (rank_main_fund_flow [ex_row])) [ex_row] =
     Inr ([\<lparr> settled_code = ''600000'', settled_name = Some ''PF Bank'',
              settled_buy_price = Num 10, settled_start_time = ''2024-01-02 15:30:00'',
              settled_current_price = Num 12, settled_main_net_ratio = Num (- 6),
              settled_today_change = Num 2, settled_profit_loss = Num 2,
              settled_remark = Ratio_below_minus5 (Num (- 6)) \<rparr>], [])"
  by (simp add: highest_price_of_def spot_lookup_def flow_lookup_def ex_spot_low_def
      ex_stock_def ex_row_def num_gt_def rule_evaluator_def
      rank_main_fund_flow_def candidate_mask_def sort_values_desc_def top_5_stocks_def
      evaluate_stock_def profit_loss_break_even_def make_settled_def Let_def)

text \<open>
  Claim C4. A watched instrument whose row of the fund-flow ranking has a main-fund net
  ratio of at least \<open>-5\<close> and today's change above \<open>10\<close> is settled by rule 2. The body
  of the loop appends the record of rule 2 to the settlements (the entry's code, buy price
  and start time, the row's name, latest price, ratio and change, the latest price minus
  the buy price as profit or loss, the remark of line 247 with the ratio in its hole) and
  leaves the watch list as it is, whatever the spot quotes say of the day's high. The run
  of the rule evaluator returns; its settlements hold this record; every settlement of the
  run with this code has the row's latest price minus its buy price as profit or loss and
  the remark of line 247 with the ratio, which is not the remark that would hold the
  change when the two differ; no entry kept by the first loop has this code, and the
  instrument is on the updated watch list only if the second loop adds its code anew.
\<close>

theorem rule_2_plain_profit_and_ratio_in_remark:
  fixes stock :: care_stock and row :: flow_row and ratio :: real
  defines "record_2 \<equiv>
     \<lparr> settled_code = code stock, settled_name = flow_name row,
       settled_buy_price = buy_price stock, settled_start_time = start_time stock,
       settled_current_price = flow_latest_price row,
       settled_main_net_ratio = Num ratio,
       settled_today_change = flow_today_change row,
       settled_profit_loss = num_sub (flow_latest_price row) (buy_price stock),
       settled_remark = Change_above_10 (Num ratio) \<rparr>"
  assumes "stock \<in> set care_stocks"
    and "flow_lookup df (code stock) = Some row"
    and "flow_main_net_ratio row = Num ratio"
    and "- 5 \<le> ratio"
    and "num_gt (flow_today_change row) (Num 10)"
  shows "evaluate_stock sd df stock (st, up) = (st @ [record_2], up) \<and>
     (\<exists>settled updated extra.
        rule_evaluator now care_stocks sd result_df df = Inr (settled, updated) \<and>
        record_2 \<in> set settled \<and>
        (\<forall>r\<in>set settled. settled_code r = code stock \<longrightarrow>
           settled_current_price r = flow_latest_price row \<and>
           settled_profit_loss r = num_sub (flow_latest_price row) (settled_buy_price r) \<and>
           settled_remark r = Change_above_10 (Num ratio) \<and>
           (flow_today_change row \<noteq> Num ratio \<longrightarrow>
              settled_remark r \<noteq> Change_above_10 (flow_today_change row))) \<and>
        updated = snd (evaluate_care_stocks sd df care_stocks ([], [])) @ extra \<and>
        (\<forall>s\<in>set (snd (evaluate_care_stocks sd df care_stocks ([], []))).
           code s \<noteq> code stock) \<and>
        (\<forall>s\<in>set extra. code s \<in> set (top_5_stocks result_df) \<and> start_time s = now) \<and>
        (code stock \<notin> set (top_5_stocks result_df) \<longrightarrow>
           (\<forall>s\<in>set updated. code s \<noteq> code stock)))"
proof -
  let ?ev = "evaluate_care_stocks sd df care_stocks ([], [])"
  have not1: "\<not> num_lt (flow_main_net_ratio row) (Num (- 5))"
    using assms(4,5) by simp
  have body: "evaluate_stock sd df stock (st, up) = (st @ [record_2], up)" for st up
    unfolding record_2_def using rule_2_body [OF assms(3) not1 assms(6)] assms(4) by simp
  obtain extra where run: "rule_evaluator now care_stocks sd result_df df =
       Inr (fst ?ev, snd ?ev @ extra)"
    and extra: "\<forall>s\<in>set extra. code s \<in> set (top_5_stocks result_df) \<and> start_time s = now"
    using rule_evaluator_result [of now care_stocks sd result_df df] by blast
  have "record_2 \<in> set (fst (evaluate_stock sd df stock ([], [])))"
    by (simp add: body)
  with assms(2) have mem: "record_2 \<in> set (fst ?ev)"
    unfolding evaluate_care_stocks_fst by blast
  have all: "settled_current_price r = flow_latest_price row \<and>
           settled_profit_loss r = num_sub (flow_latest_price row) (settled_buy_price r) \<and>
           settled_remark r = Change_above_10 (Num ratio) \<and>
           (flow_today_change row \<noteq> Num ratio \<longrightarrow>
              settled_remark r \<noteq> Change_above_10 (flow_today_change row))"
    if "r \<in> set (fst ?ev)" and "settled_code r = code stock" for r
  proof -
    from settled_member [OF that(1)] that(2) obtain s where
      r: "r \<in> set (fst (evaluate_stock sd df s ([], [])))" and c: "code s = code stock"
      by auto
    from c assms(3) have "flow_lookup df (code s) = Some row" by simp
    from rule_2_body [OF this not1 assms(6), of sd "[]" "[]"] r assms(4) show ?thesis
      by simp
  qed
  have gone: "\<forall>s\<in>set (snd ?ev). code s \<noteq> code stock"
  proof (rule settled_code_not_kept)
    fix s assume "s \<in> set care_stocks" "code s = code stock"
    with assms(3) have "flow_lookup df (code s) = Some row" by simp
    from rule_2_body [OF this not1 assms(6), of sd "[]" "[]"]
    show "snd (evaluate_stock sd df s ([], [])) = []" by simp
  qed
  have left: "code stock \<notin> set (top_5_stocks result_df) \<longrightarrow>
           (\<forall>s\<in>set (snd ?ev @ extra). code s \<noteq> code stock)"
    using gone extra by auto
  from body run mem all gone extra left show ?thesis by blast
qed

text \<open>
  The instrument bought at 10 is now at 9 after a day's high of 13, with ratio 1 and change
  \<open>+11\<close>: a settlement with the price 9 minus the buy price is recorded, the remark holds
  1, and the instrument has left the watch list.
\<close>

theorem rule_2_plain_profit_and_ratio_in_remark_witness:
  "ex_stock \<in> set [ex_stock] \<and>
   flow_lookup [ex_row_2] (code ex_stock) = Some ex_row_2 \<and>
   flow_main_net_ratio ex_row_2 = Num 1 \<and> - 5 \<le> (1::real) \<and>
   num_gt (flow_today_change ex_row_2) (Num 10) \<and>
   highest_price_of [ex_spot] (code ex_stock) = Some (Num 13) \<and>
   num_gt (Num 13) (buy_price ex_stock) \<and>
   flow_today_change ex_row_2 = Num 11 \<and>
   code ex_stock \<notin> set (top_5_stocks (fst (rank_main_fund_flow [ex_row_2]))) \<and>
   (\<exists>settled updated.
      rule_evaluator ''2024-01-03 15:30:00'' [ex_stock] [ex_spot]
        (fst (rank_main_fund_flow [ex_row_2])) [ex_row_2] = Inr (settled, updated) \<and>
      (\<exists>r\<in>set settled. settled_code r = code ex_stock) \<and>
      (\<forall>r\<in>set settled. settled_code r = code ex_stock \<longrightarrow>
         settled_profit_loss r = num_sub (Num 9) (settled_buy_price r) \<and>
         settled_remark r = Change_above_10 (Num 1)) \<and>
      (\<forall>s\<in>set updated. code s \<noteq> code ex_stock))"
proof -
  have h: "ex_stock \<in> set [ex_stock]"
    "flow_lookup [ex_row_2] (code ex_stock) = Some ex_row_2"
    "flow_main_net_ratio ex_row_2 = Num 1" "- 5 \<le> (1::real)"
    "num_gt (flow_today_change ex_row_2) (Num 10)"
    by (simp_all add: ex_stock_def ex_row_2_def flow_lookup_def num_gt_def)
  have hi: "highest_price_of [ex_spot] (code ex_stock) = Some (Num 13)"
    "num_gt (Num 13) (buy_price ex_stock)"
    "flow_today_change ex_row_2 = Num 11"
    by (simp_all add: highest_price_of_def spot_lookup_def ex_spot_def ex_stock_def
        ex_row_2_def num_gt_def)
  have price: "flow_latest_price ex_row_2 = Num 9" by (simp add: ex_row_2_def)
  have top: "code ex_stock \<notin> set (top_5_stocks (fst (rank_main_fund_flow [ex_row_2])))"
    by (simp add: top_5_stocks_def rank_main_fund_flow_def sort_values_desc_def Let_def)
  from rule_2_plain_profit_and_ratio_in_remark
    [OF h, where sd = "[ex_spot]" and st = "[]" and up = "[]"
      and now = "''2024-01-03 15:30:00''"
      and result_df = "fst (rank_main_fund_flow [ex_row_2])"]
  obtain settled updated r where
    run: "rule_evaluator ''2024-01-03 15:30:00'' [ex_stock] [ex_spot]
        (fst (rank_main_fund_flow [ex_row_2])) [ex_row_2] = Inr (settled, updated)"
    and r: "r \<in> set settled" "settled_code r = code ex_stock"
    and rem: "\<forall>r\<in>set settled. settled_code r = code ex_stock \<longrightarrow>
         settled_profit_loss r = num_sub (flow_latest_price ex_row_2) (settled_buy_price r) \<and>
         settled_remark r = Change_above_10 (Num 1)"
    and left: "code ex_stock \<notin> set (top_5_stocks (fst (rank_main_fund_flow [ex_row_2]))) \<longrightarrow>
         (\<forall>s\<in>set updated. code s \<noteq> code ex_stock)"
    by (elim conjE exE) (rule that, assumption, assumption, simp, blast, assumption)
  from left top have "\<forall>s\<in>set updated. code s \<noteq> code ex_stock" by blast
  with run r rem h hi top show ?thesis unfolding price by blast
qed

text \<open>
  The same run, evaluated: the loss of 1 is recorded although the day's high was above the
  buy price.
\<close>

lemma rule_2_example:
  "rule_evaluator ''2024-01-03 15:30:00'' [ex_stock] [ex_spot]
     (fst (rank_main_fund_flow [ex_row_2])) [ex_row_2] =
     Inr ([\<lparr> settled_code = ''600000'', settled_name = Some ''PF Bank'',
              settled_buy_price = Num 10, settled_start_time = ''2024-01-02 15:30:00'',
              settled_current_price = Num 9, settled_main_net_ratio = Num 1,
              settled_today_change = Num 11, settled_profit_loss = Num (- 1),
              settled_remark = Change_above_10 (Num 1) \<rparr>], [])"
  by (simp add: highest_price_of_def spot_lookup_def flow_lookup_def ex_spot_def
      ex_stock_def ex_row_2_def num_gt_def rule_evaluator_def
      rank_main_fund_flow_def candidate_mask_def sort_values_desc_def top_5_stocks_def
      evaluate_stock_def profit_loss_break_even_def make_settled_def Let_def)

lemma absent_one:
  assumes "flow_lookup df (code s) = None"
  shows "evaluate_stock sd df s (st, up) = (st, up @ [s])"
  using assms by (simp add: evaluate_stock_def Let_def)

text \<open>
  Claim C5. A watched instrument whose code is in no row of the fund-flow ranking is
  appended to the updated watch list as it is by the body of the loop, whatever the spot
  quotes hold; the run of the rule evaluator returns with the entry in the updated watch
  list and with no settlement of this code.
\<close>

theorem absent_from_ranking_carried_unchanged:
  assumes "stock \<in> set care_stocks"
    and "code stock \<notin> flow_code ` set df"
  shows "evaluate_stock sd df stock (st, up) = (st, up @ [stock]) \<and>
     (\<exists>settled updated.
        rule_evaluator now care_stocks sd result_df df = Inr (settled, updated) \<and>
        stock \<in> set updated \<and>
        (\<forall>r\<in>set settled. settled_code r \<noteq> code stock))"
proof -
  let ?ev = "evaluate_care_stocks sd df care_stocks ([], [])"
  from assms(2) have none: "flow_lookup df (code stock) = None"
    by (simp add: flow_lookup_None)
  obtain updated extra where run: "rule_evaluator now care_stocks sd result_df df = Inr (fst ?ev, updated)"
    and ext: "updated = snd ?ev @ extra"
    using rule_evaluator_total by blast
  have "stock \<in> set (snd (evaluate_stock sd df stock ([], [])))"
    by (simp add: absent_one [OF none])
  with assms(1) have "stock \<in> set (snd ?ev)"
    unfolding evaluate_care_stocks_snd by blast
  with ext have kept: "stock \<in> set updated" by simp
  have "settled_code r \<noteq> code stock" if "r \<in> set (fst ?ev)" for r
  proof
    assume eq: "settled_code r = code stock"
    from that obtain s where r: "r \<in> set (fst (evaluate_stock sd df s ([], [])))"
      unfolding evaluate_care_stocks_fst by blast
    with eq have "code s = code stock"
      using evaluate_stock_settled_code by fastforce
    with none have "flow_lookup df (code s) = None" by simp
    from absent_one [OF this, of sd "[]" "[]"] r show False by simp
  qed
  with run kept absent_one [OF none] show ?thesis by blast
qed

text \<open>
  The instrument is in the spot quotes, and the ranking has one row, of another code.
\<close>

theorem absent_from_ranking_carried_unchanged_witness:
  "ex_stock \<in> set [ex_stock] \<and>
   code ex_stock \<notin> flow_code ` set [ex_row_other] \<and>
   spot_lookup [ex_spot] (code ex_stock) = Some ex_spot \<and>
   (\<exists>settled updated.
      rule_evaluator ''2024-01-03 15:30:00'' [ex_stock] [ex_spot]
        (fst (rank_main_fund_flow [ex_row_other])) [ex_row_other]
        = Inr (settled, updated) \<and> ex_stock \<in> set updated)"
proof -
  have h: "ex_stock \<in> set [ex_stock]"
    "code ex_stock \<notin> flow_code ` set [ex_row_other]"
    by (simp_all add: ex_stock_def ex_row_other_def)
  have sp: "spot_lookup [ex_spot] (code ex_stock) = Some ex_spot"
    by (simp add: spot_lookup_def ex_spot_def ex_stock_def)
  from absent_from_ranking_carried_unchanged
    [OF h, where now = "''2024-01-03 15:30:00''" and sd = "[ex_spot]"
      and result_df = "fst (rank_main_fund_flow [ex_row_other])"] h sp
  show ?thesis by blast
qed


text \<open>
  Everywhere else the code does what claim C2 says. When the buy price is not below \<open>0\<close>
  (the program takes the buy price from a quoted price, line 298), a settlement under rule
  1 or rule 3 records \<open>0\<close> if the day's high is known and above the buy price, and the
  latest price minus the buy price otherwise.
\<close>

lemma break_even_override_for_quoted_buy_price:
  assumes "flow_lookup df (code stock) = Some row"
    and "num_lt (flow_main_net_ratio row) (Num (- 5)) \<or>
         (\<not> num_gt (flow_today_change row) (Num 10) \<and>
          num_gt (flow_today_change row) (Num 0) \<and> num_lt (flow_main_net_ratio row) (Num 0))"
    and "\<not> num_lt (buy_price stock) (Num 0)"
  shows "evaluate_stock sd df stock (st, up) =
     (st @ [\<lparr> settled_code = code stock, settled_name = flow_name row,
               settled_buy_price = buy_price stock, settled_start_time = start_time stock,
               settled_current_price = flow_latest_price row,
               settled_main_net_ratio = flow_main_net_ratio row,
               settled_today_change = flow_today_change row,
               settled_profit_loss =
                 (case highest_price_of sd (code stock) of
                    Some h \<Rightarrow>
                      if num_gt h (buy_price stock) then Num 0
                      else num_sub (flow_latest_price row) (buy_price stock)
                  | None \<Rightarrow> num_sub (flow_latest_price row) (buy_price stock)),
               settled_remark =
                 (if num_lt (flow_main_net_ratio row) (Num (- 5))
                  then Ratio_below_minus5 (flow_main_net_ratio row)
                  else Change_above_0_ratio_below_0 (flow_main_net_ratio row)
                         (flow_main_net_ratio row)) \<rparr>],
      up)"
proof -
  have zero: "(h \<noteq> Num 0 \<and> num_gt h (buy_price stock)) = num_gt h (buy_price stock)" for h
    using assms(3) by (auto simp add: num_gt_def)
  show ?thesis
  proof (cases "num_lt (flow_main_net_ratio row) (Num (- 5))")
    case True
    from rule_1_body [OF assms(1) True, of sd st up] True show ?thesis
      by (simp add: zero split: option.split)
  next
    case False
    with assms(2) have c: "\<not> num_gt (flow_today_change row) (Num 10)"
      "num_gt (flow_today_change row) (Num 0)" "num_lt (flow_main_net_ratio row) (Num 0)"
      by auto
    from rule_3_body [OF assms(1) False c, of sd st up] False show ?thesis
      by (simp add: zero split: option.split)
  qed
qed

text \<open>
  Bought at 10, day's high 13, ratio \<open>-6\<close>: settled with profit or loss \<open>0\<close>.
\<close>

lemma break_even_reached_example:
  "rule_evaluator ''2024-01-03 15:30:00'' [ex_stock] [ex_spot]
     (fst (rank_main_fund_flow [ex_row])) [ex_row] =
     Inr ([make_settled ex_stock ex_row (Num 0) (Ratio_below_minus5 (Num (- 6)))], [])"
  by (simp add: highest_price_of_def spot_lookup_def flow_lookup_def ex_spot_def
      ex_stock_def ex_row_def num_gt_def rule_evaluator_def
      rank_main_fund_flow_def candidate_mask_def sort_values_desc_def top_5_stocks_def
      evaluate_stock_def profit_loss_break_even_def make_settled_def Let_def)

text \<open>
  The scenario of the specification: ratio \<open>-6\<close>, bought at 10, day's high 9, now at 8.
  The loss of 2 is recorded.
\<close>

lemma break_even_not_reached_example:
  "rule_evaluator ''2024-01-03 15:30:00'' [ex_stock] [ex_spot_low]
     (fst (rank_main_fund_flow [ex_row_6])) [ex_row_6] =
     Inr ([make_settled ex_stock ex_row_6 (Num (- 2)) (Ratio_below_minus5 (Num (- 6)))], [])"
  by (simp add: highest_price_of_def spot_lookup_def flow_lookup_def ex_spot_low_def
      ex_stock_def ex_row_6_def num_gt_def rule_evaluator_def
      rank_main_fund_flow_def candidate_mask_def sort_values_desc_def top_5_stocks_def
      evaluate_stock_def profit_loss_break_even_def make_settled_def Let_def)

section \<open>Candidate ranking\<close>

text \<open>
  \<open>sort_values_desc\<close> permutes the frame, and on a frame without \<^verbatim>\<open>NaN\<close> in the column it
  returns the rows with no smaller ratio before a larger one.
\<close>

lemma mset_insert_desc: "mset (insert_desc x ys) = add_mset x (mset ys)"
  by (induction ys) simp_all

lemma mset_foldr_insert_desc: "mset (foldr insert_desc xs []) = mset xs"
  by (induction xs) (simp_all add: mset_insert_desc)

lemma mset_sort_values_desc: "mset (sort_values_desc df) = mset df"
  by (simp add: sort_values_desc_def mset_foldr_insert_desc)

lemma length_sort_values_desc: "length (sort_values_desc df) = length df"
  using mset_sort_values_desc [of df] by (metis size_mset)

lemma set_sort_values_desc: "set (sort_values_desc df) = set df"
  using mset_sort_values_desc [of df] by (metis set_mset_mset)

lemma not_num_lt_trans:
  "notna a \<Longrightarrow> notna b \<Longrightarrow> notna c \<Longrightarrow> \<not> num_lt a b \<Longrightarrow> \<not> num_lt b c \<Longrightarrow> \<not> num_lt a c"
  by (cases a; cases b; cases c) simp_all

lemma sorted_insert_desc:
  assumes "\<forall>r\<in>set (x # ys). notna (flow_main_net_ratio r)"
    and "sorted_wrt (\<lambda>a b. \<not> num_lt (flow_main_net_ratio a) (flow_main_net_ratio b)) ys"
  shows "sorted_wrt (\<lambda>a b. \<not> num_lt (flow_main_net_ratio a) (flow_main_net_ratio b))
           (insert_desc x ys)"
  using assms
proof (induction ys)
  case Nil
  then show ?case by simp
next
  case (Cons y ys)
  show ?case
  proof (cases "num_lt (flow_main_net_ratio x) (flow_main_net_ratio y)")
    case True
    have "set (insert_desc x ys) = insert x (set ys)"
      using mset_insert_desc [of x ys] by (metis set_mset_add_mset_insert set_mset_mset)
    moreover have "\<not> num_lt (flow_main_net_ratio y) (flow_main_net_ratio x)"
      using True by (cases "flow_main_net_ratio x"; cases "flow_main_net_ratio y") simp_all
    ultimately show ?thesis
      using True Cons by simp
  next
    case False
    have "\<not> num_lt (flow_main_net_ratio x) (flow_main_net_ratio z)" if "z \<in> set ys" for z
    proof -
      from Cons.prems(2) that
      have "\<not> num_lt (flow_main_net_ratio y) (flow_main_net_ratio z)" by simp
      with False Cons.prems(1) that show ?thesis
        using not_num_lt_trans
          [of "flow_main_net_ratio x" "flow_main_net_ratio y" "flow_main_net_ratio z"]
        by simp
    qed
    with False Cons.prems(2) show ?thesis by simp
  qed
qed

lemma sorted_foldr_insert_desc:
  "\<forall>r\<in>set xs. notna (flow_main_net_ratio r) \<Longrightarrow>
   sorted_wrt (\<lambda>a b. \<not> num_lt (flow_main_net_ratio a) (flow_main_net_ratio b))
     (foldr insert_desc xs [])"
proof (induction xs)
  case Nil
  show ?case by simp
next
  case (Cons x xs)
  have "set (foldr insert_desc xs []) = set xs"
    using mset_foldr_insert_desc [of xs] by (metis set_mset_mset)
  with Cons show ?case
    by (simp add: sorted_insert_desc)
qed

lemma candidate_mask_notna: "candidate_mask r \<Longrightarrow> notna (flow_main_net_ratio r)"
  by (cases "flow_main_net_ratio r") (simp_all add: candidate_mask_def num_gt_def)

lemma sort_values_desc_candidates:
  "sort_values_desc (filter candidate_mask df) = foldr insert_desc (filter candidate_mask df) []"
proof -
  have "filter (\<lambda>r. notna (flow_main_net_ratio r)) (filter candidate_mask df)
          = filter candidate_mask df"
    by (rule filter_True) (simp add: candidate_mask_notna)
  moreover have "filter (\<lambda>r. \<not> notna (flow_main_net_ratio r)) (filter candidate_mask df) = []"
    by (simp add: filter_empty_conv candidate_mask_notna)
  ultimately show ?thesis by (simp add: sort_values_desc_def)
qed

text \<open>
  Claim C3. The frame \<^verbatim>\<open>result_df\<close> returned by \<^verbatim>\<open>get_main_fund_flow\<close> is a rearrangement
  of the filtered rows of the fetched frame in which no row has a smaller main-fund net
  ratio than a later one; the filtered rows are those with a latest price, a ratio above
  \<open>0\<close>, a name that is missing or does not contain \<^verbatim>\<open>ST\<close>, and a change below \<open>0\<close>. The
  candidate list of line 189 is empty when fewer than 5 rows pass the filter, and is the
  codes of the first 5 rows of \<^verbatim>\<open>result_df\<close> otherwise.
\<close>

theorem top_5_of_filtered_ranking:
  "top_5_stocks (fst (rank_main_fund_flow df)) =
     (if length (filter candidate_mask df) < 5 then []
      else take 5 (map flow_code (fst (rank_main_fund_flow df)))) \<and>
   mset (fst (rank_main_fund_flow df)) = mset (filter candidate_mask df) \<and>
   sorted_wrt (\<lambda>a b. \<not> num_lt (flow_main_net_ratio a) (flow_main_net_ratio b))
     (fst (rank_main_fund_flow df)) \<and>
   candidate_mask =
     (\<lambda>r. flow_latest_price r \<noteq> NaN \<and>
          num_gt (flow_main_net_ratio r) (Num 0) \<and>
          (case flow_name r of None \<Rightarrow> True | Some s \<Rightarrow> \<not> str_contains ''ST'' s) \<and>
          num_lt (flow_today_change r) (Num 0))"
proof -
  let ?F = "filter candidate_mask df"
  have r: "fst (rank_main_fund_flow df) = sort_values_desc ?F"
    by (simp add: rank_main_fund_flow_def Let_def)
  have 1: "top_5_stocks (sort_values_desc ?F) =
     (if length ?F < 5 then [] else take 5 (map flow_code (sort_values_desc ?F)))"
    by (simp add: top_5_stocks_def length_sort_values_desc take_map)
  have 2: "mset (sort_values_desc ?F) = mset ?F"
    by (rule mset_sort_values_desc)
  have 3: "sorted_wrt (\<lambda>a b. \<not> num_lt (flow_main_net_ratio a) (flow_main_net_ratio b))
     (sort_values_desc ?F)"
    unfolding sort_values_desc_candidates
    by (rule sorted_foldr_insert_desc) (simp add: candidate_mask_notna)
  have 4: "candidate_mask =
     (\<lambda>r. flow_latest_price r \<noteq> NaN \<and>
          num_gt (flow_main_net_ratio r) (Num 0) \<and>
          (case flow_name r of None \<Rightarrow> True | Some s \<Rightarrow> \<not> str_contains ''ST'' s) \<and>
          num_lt (flow_today_change r) (Num 0))"
  proof
    fix r :: flow_row
    have a: "notna (flow_latest_price r) = (flow_latest_price r \<noteq> NaN)"
      by (cases "flow_latest_price r") simp_all
    have b: "(\<not> name_contains_ST (flow_name r)) =
       (case flow_name r of None \<Rightarrow> True | Some s \<Rightarrow> \<not> str_contains ''ST'' s)"
      by (cases "flow_name r") simp_all
    show "candidate_mask r =
     (flow_latest_price r \<noteq> NaN \<and>
          num_gt (flow_main_net_ratio r) (Num 0) \<and>
          (case flow_name r of None \<Rightarrow> True | Some s \<Rightarrow> \<not> str_contains ''ST'' s) \<and>
          num_lt (flow_today_change r) (Num 0))"
      unfolding candidate_mask_def a b ..
  qed
  from 1 2 3 4 r show ?thesis by simp
qed

text \<open>
  \<open>str_contains pat s\<close> finds an occurrence of \<open>pat\<close> in \<open>s\<close> wherever there is one.
\<close>

lemma str_contains_iff: "str_contains pat s \<longleftrightarrow> (\<exists>a b. s = a @ pat @ b)"
proof (induction s)
  case Nil
  show ?case by auto
next
  case (Cons c s)
  show ?case
  proof
    assume "str_contains pat (c # s)"
    then consider "take (length pat) (c # s) = pat" | "str_contains pat s" by auto
    then show "\<exists>a b. c # s = a @ pat @ b"
    proof cases
      case 1
      then have "c # s = [] @ pat @ drop (length pat) (c # s)"
        by (metis append_Nil append_take_drop_id)
      then show ?thesis by blast
    next
      case 2
      with Cons.IH obtain a b where "s = a @ pat @ b" by blast
      then have "c # s = (c # a) @ pat @ b" by simp
      then show ?thesis by blast
    qed
  next
    assume "\<exists>a b. c # s = a @ pat @ b"
    then obtain a b where ab: "c # s = a @ pat @ b" by blast
    show "str_contains pat (c # s)"
    proof (cases a)
      case Nil
      with ab have "take (length pat) (c # s) = pat" by simp
      then show ?thesis by simp
    next
      case (Cons a0 a')
      with ab have "s = a' @ pat @ b" by simp
      with Cons.IH have "str_contains pat s" by blast
      then show ?thesis by simp
    qed
  qed
qed

text \<open>
  Eight rows of which six pass the filter (one name holds \<^verbatim>\<open>ST\<close>, one change is
  positive): the five largest ratios 9, 7, 5, 4, 3 are taken, in this order.
\<close>

lemma top_5_example:
  "top_5_stocks (fst (rank_main_fund_flow ex_ranking)) =
     [''000002'', ''000005'', ''000006'', ''000008'', ''000001'']"
  by (simp add: ex_ranking_def ex_flow_def rank_main_fund_flow_def candidate_mask_def
      sort_values_desc_def top_5_stocks_def num_gt_def)

text \<open>
  Of the first five rows four pass the filter: no candidate is taken.
\<close>

lemma top_5_example_too_few:
  "length (filter candidate_mask (take 5 ex_ranking)) = 4 \<and>
   top_5_stocks (fst (rank_main_fund_flow (take 5 ex_ranking))) = []"
  by (simp add: ex_ranking_def ex_flow_def rank_main_fund_flow_def candidate_mask_def
      sort_values_desc_def top_5_stocks_def num_gt_def)

section \<open>The fetch with retries\<close>

lemma fetch_loop_world:
  "\<exists>k\<le>n. snd (fetch_loop m call a n w) = w\<lparr>ak_calls := ak_calls w @ replicate k m\<rparr>"
proof (induction n arbitrary: a w)
  case 0
  show ?case by simp
next
  case (Suc n)
  show ?case
  proof (cases "call a")
    case (Some d)
    have "snd (fetch_loop m call a (Suc n) w) = w\<lparr>ak_calls := ak_calls w @ replicate 1 m\<rparr>"
      using Some by (simp add: Let_def)
    then show ?thesis by (intro exI [of _ 1]) simp
  next
    case None
    let ?w = "w\<lparr>ak_calls := ak_calls w @ [m]\<rparr>"
    from Suc.IH [of "Suc a" ?w] obtain k where k: "k \<le> n"
      "snd (fetch_loop m call (Suc a) n ?w) = ?w\<lparr>ak_calls := ak_calls ?w @ replicate k m\<rparr>"
      by blast
    have "snd (fetch_loop m call a (Suc n) w) = w\<lparr>ak_calls := ak_calls w @ replicate (Suc k) m\<rparr>"
      using None k(2) by (simp add: Let_def)
    with k(1) show ?thesis by (intro exI [of _ "Suc k"]) simp
  qed
qed

lemma fetch_loop_result:
  "fst (fetch_loop m call a n w) = Some d \<longleftrightarrow>
     (\<exists>i<n. (\<forall>j<i. call (a + j) = None) \<and> call (a + i) = Some d)"
proof (induction n arbitrary: a w)
  case 0
  show ?case by simp
next
  case (Suc n)
  show ?case
  proof (cases "call a")
    case (Some d')
    have "(\<exists>i<Suc n. (\<forall>j<i. call (a + j) = None) \<and> call (a + i) = Some d) \<longleftrightarrow> d' = d"
    proof
      assume "\<exists>i<Suc n. (\<forall>j<i. call (a + j) = None) \<and> call (a + i) = Some d"
      then obtain i where i: "\<forall>j<i. call (a + j) = None" "call (a + i) = Some d" by blast
      show "d' = d"
      proof (cases i)
        case 0
        with i(2) Some show ?thesis by simp
      next
        case (Suc i')
        with i(1) have "call (a + 0) = None" by blast
        with Some show ?thesis by simp
      qed
    next
      assume "d' = d"
      with Some have "(\<forall>j<0. call (a + j) = None) \<and> call (a + 0) = Some d" by simp
      then show "\<exists>i<Suc n. (\<forall>j<i. call (a + j) = None) \<and> call (a + i) = Some d"
        by blast
    qed
    with Some show ?thesis by (simp add: Let_def)
  next
    case None
    have "(\<exists>i<Suc n. (\<forall>j<i. call (a + j) = None) \<and> call (a + i) = Some d) \<longleftrightarrow>
          (\<exists>i<n. (\<forall>j<i. call (Suc a + j) = None) \<and> call (Suc a + i) = Some d)"
    proof
      assume "\<exists>i<Suc n. (\<forall>j<i. call (a + j) = None) \<and> call (a + i) = Some d"
      then obtain i where i: "i < Suc n" "\<forall>j<i. call (a + j) = None" "call (a + i) = Some d"
        by blast
      from i(3) None obtain i' where i': "i = Suc i'" by (cases i) simp_all
      have "\<forall>j<i'. call (Suc a + j) = None"
      proof (intro allI impI)
        fix j assume "j < i'"
        then have "Suc j < i" using i' by simp
        with i(2) have "call (a + Suc j) = None" by blast
        then show "call (Suc a + j) = None" by simp
      qed
      moreover have "call (Suc a + i') = Some d" using i(3) i' by simp
      moreover have "i' < n" using i(1) i' by simp
      ultimately show "\<exists>i<n. (\<forall>j<i. call (Suc a + j) = None) \<and> call (Suc a + i) = Some d"
        by blast
    next
      assume "\<exists>i<n. (\<forall>j<i. call (Suc a + j) = None) \<and> call (Suc a + i) = Some d"
      then obtain i where i: "i < n" "\<forall>j<i. call (Suc a + j) = None" "call (Suc a + i) = Some d"
        by blast
      have "\<forall>j<Suc i. call (a + j) = None"
      proof (intro allI impI)
        fix j assume j: "j < Suc i"
        show "call (a + j) = None"
        proof (cases j)
          case 0
          with None show ?thesis by simp
        next
          case (Suc j')
          with j have "j' < i" by simp
          with i(2) have "call (Suc a + j') = None" by blast
          with Suc show ?thesis by simp
        qed
      qed
      moreover have "call (a + Suc i) = Some d" using i(3) by simp
      moreover have "Suc i < Suc n" using i(1) by simp
      ultimately show "\<exists>i<Suc n. (\<forall>j<i. call (a + j) = None) \<and> call (a + i) = Some d"
        by blast
    qed
    with None Suc.IH [of "Suc a" "w\<lparr>ak_calls := ak_calls w @ [m]\<rparr>"] show ?thesis
      by (simp add: Let_def)
  qed
qed

lemma fetch_loop_fails:
  "fst (fetch_loop m call a n w) = None \<longleftrightarrow> (\<forall>i<n. call (a + i) = None)"
proof (induction n arbitrary: a w)
  case 0
  show ?case by simp
next
  case (Suc n)
  show ?case
  proof (cases "call a")
    case (Some d)
    then have "\<not> (\<forall>i<Suc n. call (a + i) = None)"
      by (auto intro: exI [of _ 0])
    with Some show ?thesis by (simp add: Let_def)
  next
    case None
    have "(\<forall>i<Suc n. call (a + i) = None) \<longleftrightarrow> (\<forall>i<n. call (Suc a + i) = None)"
    proof
      assume h: "\<forall>i<Suc n. call (a + i) = None"
      show "\<forall>i<n. call (Suc a + i) = None"
      proof (intro allI impI)
        fix i assume "i < n"
        then have "Suc i < Suc n" by simp
        with h have "call (a + Suc i) = None" by blast
        then show "call (Suc a + i) = None" by simp
      qed
    next
      assume h: "\<forall>i<n. call (Suc a + i) = None"
      show "\<forall>i<Suc n. call (a + i) = None"
      proof (intro allI impI)
        fix i assume i: "i < Suc n"
        show "call (a + i) = None"
        proof (cases i)
          case 0
          with None show ?thesis by simp
        next
          case (Suc i')
          with i have "i' < n" by simp
          with h have "call (Suc a + i') = None" by blast
          with Suc show ?thesis by simp
        qed
      qed
    qed
    with None Suc.IH [of "Suc a" "w\<lparr>ak_calls := ak_calls w @ [m]\<rparr>"] show ?thesis
      by (simp add: Let_def)
  qed
qed

lemma fetch_loop_same_result:
  "fst (fetch_loop m call a n w) = fst (fetch_loop m call a n w')"
proof (cases "fst (fetch_loop m call a n w)")
  case None
  then show ?thesis using fetch_loop_fails [of m call a n w] fetch_loop_fails [of m call a n w']
    by simp
next
  case (Some d)
  then show ?thesis using fetch_loop_result [of m call a n w d] fetch_loop_result [of m call a n w' d]
    by simp
qed

section \<open>The calendar gate\<close>

lemma get_trade_calendar_world:
  "\<exists>k\<le>3. snd (get_trade_calendar e w) = w\<lparr>ak_calls := ak_calls w @ replicate k Trade_calendar\<rparr>"
  unfolding get_trade_calendar_def fetch_data_by_ak_def by (rule fetch_loop_world)

lemma is_trading_day_world: "snd (is_trading_day e w) = snd (get_trade_calendar e w)"
  by (simp add: is_trading_day_def split_beta split: option.split)

lemma get_trade_calendar_result:
  "fst (get_trade_calendar e w) = Some trading_days \<longleftrightarrow>
     (\<exists>attempt<3. (\<forall>earlier<attempt. tool_trade_date_hist_sina e earlier = None) \<and>
        tool_trade_date_hist_sina e attempt = Some trading_days)"
  using fetch_loop_result [of Trade_calendar "tool_trade_date_hist_sina e" 0 3 w trading_days]
  by (simp add: get_trade_calendar_def fetch_data_by_ak_def)

lemma get_trade_calendar_fails:
  "fst (get_trade_calendar e w) = None \<longleftrightarrow>
     (\<forall>attempt<3. tool_trade_date_hist_sina e attempt = None)"
  using fetch_loop_fails [of Trade_calendar "tool_trade_date_hist_sina e" 0 3 w]
  by (simp add: get_trade_calendar_def fetch_data_by_ak_def)

text \<open>
  Claim C8. \<^verbatim>\<open>is_trading_day\<close> returns \<open>True\<close> exactly when the fetch of the trading calendar
  succeeds and \<^verbatim>\<open>self.today\<close> is one of the dates of the fetched calendar: that is, when
  one of the three attempts returns a calendar after every earlier attempt has failed, and
  \<^verbatim>\<open>self.today\<close> is among the dates of that calendar. The calendar the fetch returns is
  the one of the first attempt that does not fail. When the call fails in each of the three
  attempts, the fetch returns \<open>None\<close> and \<^verbatim>\<open>is_trading_day\<close> returns \<open>False\<close>; it has no
  other outcome than a truth value.
\<close>

theorem is_trading_day_iff:
  "(fst (is_trading_day e w) \<longleftrightarrow>
      (\<exists>attempt<3. (\<forall>earlier<attempt. tool_trade_date_hist_sina e earlier = None) \<and>
         (\<exists>trading_days. tool_trade_date_hist_sina e attempt = Some trading_days \<and>
            today e \<in> set trading_days))) \<and>
   (\<forall>trading_days. fst (get_trade_calendar e w) = Some trading_days \<longleftrightarrow>
      (\<exists>attempt<3. (\<forall>earlier<attempt. tool_trade_date_hist_sina e earlier = None) \<and>
         tool_trade_date_hist_sina e attempt = Some trading_days)) \<and>
   (fst (is_trading_day e w) \<longleftrightarrow>
      (\<exists>trading_days. fst (get_trade_calendar e w) = Some trading_days \<and>
         today e \<in> set trading_days)) \<and>
   (fst (get_trade_calendar e w) = None \<longleftrightarrow>
      (\<forall>attempt<3. tool_trade_date_hist_sina e attempt = None)) \<and>
   ((\<forall>attempt<3. tool_trade_date_hist_sina e attempt = None) \<longrightarrow>
      \<not> fst (is_trading_day e w))"
proof -
  have 1: "fst (is_trading_day e w) \<longleftrightarrow>
      (\<exists>trading_days. fst (get_trade_calendar e w) = Some trading_days \<and>
         today e \<in> set trading_days)"
    by (simp add: is_trading_day_def split_beta split: option.split)
  have 2: "fst (get_trade_calendar e w) = None \<longleftrightarrow>
      (\<forall>attempt<3. tool_trade_date_hist_sina e attempt = None)"
    by (rule get_trade_calendar_fails)
  have 3: "\<forall>trading_days. fst (get_trade_calendar e w) = Some trading_days \<longleftrightarrow>
      (\<exists>attempt<3. (\<forall>earlier<attempt. tool_trade_date_hist_sina e earlier = None) \<and>
         tool_trade_date_hist_sina e attempt = Some trading_days)"
    using get_trade_calendar_result by blast
  have 4: "fst (is_trading_day e w) \<longleftrightarrow>
      (\<exists>attempt<3. (\<forall>earlier<attempt. tool_trade_date_hist_sina e earlier = None) \<and>
         (\<exists>trading_days. tool_trade_date_hist_sina e attempt = Some trading_days \<and>
            today e \<in> set trading_days))"
    unfolding 1 using 3 by blast
  have 5: "(\<forall>attempt<3. tool_trade_date_hist_sina e attempt = None) \<longrightarrow>
      \<not> fst (is_trading_day e w)"
    using 1 2 by auto
  from 1 2 3 4 5 show ?thesis by blast
qed

text \<open>
  A provider whose calendar call fails in every attempt: the answer is \<open>False\<close>. A provider
  whose call fails twice and then returns a calendar with today's date: the answer is
  \<open>True\<close>. The same provider on a day that is not in its calendar: the answer is \<open>False\<close>.
\<close>

theorem is_trading_day_iff_witness:
  "tool_trade_date_hist_sina ex_env_no_calendar 0 = None \<and>
   tool_trade_date_hist_sina ex_env_no_calendar 1 = None \<and>
   tool_trade_date_hist_sina ex_env_no_calendar 2 = None \<and>
   fst (get_trade_calendar ex_env_no_calendar ex_world) = None \<and>
   \<not> fst (is_trading_day ex_env_no_calendar ex_world) \<and>
   tool_trade_date_hist_sina ex_env_retry 0 = None \<and>
   tool_trade_date_hist_sina ex_env_retry 1 = None \<and>
   tool_trade_date_hist_sina ex_env_retry 2 = Some [''2024-01-02'', ''2024-01-03''] \<and>
   today ex_env_retry = ''2024-01-03'' \<and>
   fst (get_trade_calendar ex_env_retry ex_world) = Some [''2024-01-02'', ''2024-01-03''] \<and>
   fst (is_trading_day ex_env_retry ex_world) \<and>
   today (ex_env_retry\<lparr>today := ''2024-01-06''\<rparr>) = ''2024-01-06'' \<and>
   \<not> fst (is_trading_day (ex_env_retry\<lparr>today := ''2024-01-06''\<rparr>) ex_world)"
proof -
  have none: "\<forall>attempt<3. tool_trade_date_hist_sina ex_env_no_calendar attempt = None"
    by (simp add: ex_env_no_calendar_def)
  have a: "fst (get_trade_calendar ex_env_no_calendar ex_world) = None \<and>
   \<not> fst (is_trading_day ex_env_no_calendar ex_world)"
    using none is_trading_day_iff [of ex_env_no_calendar ex_world] by blast
  let ?cal = "[''2024-01-02'', ''2024-01-03'']"
  have third: "(2::nat) < 3 \<and> (\<forall>earlier<2. tool_trade_date_hist_sina ex_env_retry earlier = None) \<and>
      tool_trade_date_hist_sina ex_env_retry 2 = Some ?cal"
    by (simp add: ex_env_retry_def)
  have today: "today ex_env_retry \<in> set ?cal" by (simp add: ex_env_retry_def)
  have b: "fst (get_trade_calendar ex_env_retry ex_world) = Some ?cal"
    using third is_trading_day_iff [of ex_env_retry ex_world] by blast
  have c: "fst (is_trading_day ex_env_retry ex_world)"
    using b today is_trading_day_iff [of ex_env_retry ex_world] by blast
  let ?e = "ex_env_retry\<lparr>today := ''2024-01-06''\<rparr>"
  have third': "(2::nat) < 3 \<and> (\<forall>earlier<2. tool_trade_date_hist_sina ?e earlier = None) \<and>
      tool_trade_date_hist_sina ?e 2 = Some ?cal"
    by (simp add: ex_env_retry_def)
  have b': "fst (get_trade_calendar ?e ex_world) = Some ?cal"
    using third' is_trading_day_iff [of ?e ex_world] by blast
  have iff: "fst (is_trading_day ?e ex_world) \<longleftrightarrow>
      (\<exists>trading_days. fst (get_trade_calendar ?e ex_world) = Some trading_days \<and>
         today ?e \<in> set trading_days)"
    using is_trading_day_iff [of ?e ex_world] by blast
  have d: "\<not> fst (is_trading_day ?e ex_world)"
    unfolding iff b' by simp
  from a b c d show ?thesis by (simp add: ex_env_no_calendar_def ex_env_retry_def)
qed

text \<open>
  A provider whose calendar call fails twice and then returns a calendar with today's date:
  three calls are made and the answer is \<open>True\<close>.
\<close>

lemma is_trading_day_third_attempt:
  "is_trading_day ex_env_retry ex_world =
     (True, ex_world\<lparr>ak_calls := [Trade_calendar, Trade_calendar, Trade_calendar]\<rparr>)"
  by (simp add: is_trading_day_def get_trade_calendar_def fetch_data_by_ak_def
      ex_env_retry_def ex_world_def numeral_3_eq_3 Let_def)

section \<open>Early returns of the run\<close>

text \<open>
  Claim C7. When \<^verbatim>\<open>is_trading_day\<close> returns \<open>False\<close>, \<^verbatim>\<open>analyze_stocks\<close> returns normally;
  the watch-list file, its dated copies, the ledger file and the report file are what they
  were, and the only calls made to the provider are the at most three calls for the trading
  calendar: no spot-quote and no fund-flow call.
\<close>

theorem non_trading_day_changes_no_file:
  assumes "\<not> fst (is_trading_day e w)"
  shows "\<exists>w' k. analyze_stocks e w = Inr w' \<and>
     care_file w' = care_file w \<and> care_backup w' = care_backup w \<and>
     result_json w' = result_json w \<and> result_file w' = result_file w \<and>
     ak_calls w' = ak_calls w @ replicate k Trade_calendar \<and> k \<le> 3"
proof -
  obtain k where k: "k \<le> 3"
    "snd (is_trading_day e w) = w\<lparr>ak_calls := ak_calls w @ replicate k Trade_calendar\<rparr>"
    using get_trade_calendar_world [of e w] is_trading_day_world [of e w] by auto
  from assms have "analyze_stocks e w = Inr (snd (is_trading_day e w))"
    by (simp add: analyze_stocks_def split_beta)
  with k show ?thesis by simp
qed

text \<open>
  A Saturday between two trading days of the calendar.
\<close>

theorem non_trading_day_changes_no_file_witness:
  "\<not> fst (is_trading_day ex_env_holiday ex_world) \<and>
   (\<exists>w' k. analyze_stocks ex_env_holiday ex_world = Inr w' \<and>
     care_file w' = care_file ex_world \<and> care_backup w' = care_backup ex_world \<and>
     result_json w' = result_json ex_world \<and> result_file w' = result_file ex_world \<and>
     ak_calls w' = ak_calls ex_world @ replicate k Trade_calendar \<and> k \<le> 3)"
proof -
  have h: "\<not> fst (is_trading_day ex_env_holiday ex_world)"
    by (simp add: is_trading_day_def get_trade_calendar_def fetch_data_by_ak_def
      ex_env_holiday_def numeral_3_eq_3 Let_def)
  from non_trading_day_changes_no_file [OF h] h show ?thesis by blast
qed

text \<open>
  The same run, evaluated: one call for the calendar, and nothing else has changed.
\<close>

lemma non_trading_day_example:
  "analyze_stocks ex_env_holiday ex_world = Inr (ex_world\<lparr>ak_calls := [Trade_calendar]\<rparr>)"
  by (simp add: analyze_stocks_def is_trading_day_def get_trade_calendar_def
      fetch_data_by_ak_def ex_env_holiday_def ex_world_def numeral_3_eq_3 Let_def)

text \<open>
  The fetches change nothing but the trace of calls, and what a fetch returns does not
  depend on the world it starts in.
\<close>

lemma fetch_data_by_ak_files:
  "care_file (snd (fetch_data_by_ak m call n w)) = care_file w \<and>
   care_backup (snd (fetch_data_by_ak m call n w)) = care_backup w \<and>
   result_json (snd (fetch_data_by_ak m call n w)) = result_json w \<and>
   result_file (snd (fetch_data_by_ak m call n w)) = result_file w"
proof -
  obtain k where "snd (fetch_loop m call 0 n w) = w\<lparr>ak_calls := ak_calls w @ replicate k m\<rparr>"
    using fetch_loop_world [of n m call 0 w] by blast
  then show ?thesis by (simp add: fetch_data_by_ak_def)
qed

lemma is_trading_day_files:
  "care_file (snd (is_trading_day e w)) = care_file w \<and>
   care_backup (snd (is_trading_day e w)) = care_backup w \<and>
   result_json (snd (is_trading_day e w)) = result_json w \<and>
   result_file (snd (is_trading_day e w)) = result_file w"
  unfolding is_trading_day_world get_trade_calendar_def by (rule fetch_data_by_ak_files)

lemma get_stock_data_files:
  "care_file (snd (get_stock_data e w)) = care_file w \<and>
   care_backup (snd (get_stock_data e w)) = care_backup w \<and>
   result_json (snd (get_stock_data e w)) = result_json w \<and>
   result_file (snd (get_stock_data e w)) = result_file w"
  unfolding get_stock_data_def by (rule fetch_data_by_ak_files)

lemma get_main_fund_flow_snd:
  "snd (get_main_fund_flow e w) =
     snd (fetch_data_by_ak Main_fund_flow (stock_main_fund_flow e) 3 w)"
  by (simp add: get_main_fund_flow_def split_beta split: option.split)

lemma get_main_fund_flow_fst:
  "fst (get_main_fund_flow e w) =
     map_option rank_main_fund_flow
       (fst (fetch_data_by_ak Main_fund_flow (stock_main_fund_flow e) 3 w))"
  by (simp add: get_main_fund_flow_def split_beta split: option.split)

lemma get_main_fund_flow_files:
  "care_file (snd (get_main_fund_flow e w)) = care_file w \<and>
   care_backup (snd (get_main_fund_flow e w)) = care_backup w \<and>
   result_json (snd (get_main_fund_flow e w)) = result_json w \<and>
   result_file (snd (get_main_fund_flow e w)) = result_file w"
  unfolding get_main_fund_flow_snd by (rule fetch_data_by_ak_files)

lemma get_stock_data_same: "fst (get_stock_data e w) = fst (get_stock_data e w')"
  unfolding get_stock_data_def fetch_data_by_ak_def by (rule fetch_loop_same_result)

lemma get_main_fund_flow_same:
  "fst (get_main_fund_flow e w) = fst (get_main_fund_flow e w')"
  unfolding get_main_fund_flow_fst fetch_data_by_ak_def
  using fetch_loop_same_result [of Main_fund_flow "stock_main_fund_flow e" 0 3 w w']
  by simp

lemma get_stock_data_fails:
  "fst (get_stock_data e w) = None \<longleftrightarrow> (\<forall>attempt<3. stock_zh_a_spot_em e attempt = None)"
  using fetch_loop_fails [of Stock_spot "stock_zh_a_spot_em e" 0 3 w]
  by (simp add: get_stock_data_def fetch_data_by_ak_def)

lemma get_main_fund_flow_fails:
  "fst (get_main_fund_flow e w) = None \<longleftrightarrow>
     (\<forall>attempt<3. stock_main_fund_flow e attempt = None)"
  using fetch_loop_fails [of Main_fund_flow "stock_main_fund_flow e" 0 3 w]
  by (simp add: get_main_fund_flow_fst fetch_data_by_ak_def)

text \<open>
  Claim C9. On a trading day, when the spot-quote call fails in each of its three attempts,
  or the fund-flow call fails in each of its three attempts, \<^verbatim>\<open>analyze_stocks\<close> returns
  normally and the watch-list file, its dated copies, the ledger file and the report file
  are what they were.
\<close>

theorem failed_fetch_changes_no_file:
  assumes "fst (is_trading_day e w)"
    and "(\<forall>attempt<3. stock_zh_a_spot_em e attempt = None) \<or>
         (\<forall>attempt<3. stock_main_fund_flow e attempt = None)"
  shows "\<exists>w'. analyze_stocks e w = Inr w' \<and>
     care_file w' = care_file w \<and> care_backup w' = care_backup w \<and>
     result_json w' = result_json w \<and> result_file w' = result_file w"
proof -
  let ?w1 = "snd (is_trading_day e w)"
  let ?w2 = "snd (get_stock_data e ?w1)"
  let ?w3 = "snd (get_main_fund_flow e ?w2)"
  have f1: "care_file ?w1 = care_file w \<and> care_backup ?w1 = care_backup w \<and>
     result_json ?w1 = result_json w \<and> result_file ?w1 = result_file w"
    by (rule is_trading_day_files)
  have f2: "care_file ?w2 = care_file w \<and> care_backup ?w2 = care_backup w \<and>
     result_json ?w2 = result_json w \<and> result_file ?w2 = result_file w"
    using get_stock_data_files [of e ?w1] f1 by simp
  have f3: "care_file ?w3 = care_file w \<and> care_backup ?w3 = care_backup w \<and>
     result_json ?w3 = result_json w \<and> result_file ?w3 = result_file w"
    using get_main_fund_flow_files [of e ?w2] f2 by simp
  show ?thesis
  proof (cases "fst (get_stock_data e ?w1)")
    case None
    with assms(1) have "analyze_stocks e w = Inr ?w2"
      by (simp add: analyze_stocks_def split_beta Let_def)
    with f2 show ?thesis by simp
  next
    case (Some spot)
    then have "\<not> (\<forall>attempt<3. stock_zh_a_spot_em e attempt = None)"
      using get_stock_data_fails [of e ?w1] by simp
    with assms(2) have "\<forall>attempt<3. stock_main_fund_flow e attempt = None" by blast
    then have "fst (get_main_fund_flow e ?w2) = None"
      by (simp add: get_main_fund_flow_fails)
    with assms(1) Some have "analyze_stocks e w = Inr ?w3"
      by (simp add: analyze_stocks_def split_beta Let_def)
    with f3 show ?thesis by simp
  qed
qed

text \<open>
  A trading day on which the spot quotes arrive and the fund-flow call always fails.
\<close>

theorem failed_fetch_changes_no_file_witness:
  "fst (is_trading_day ex_env_no_flow ex_world) \<and>
   stock_main_fund_flow ex_env_no_flow 0 = None \<and>
   stock_main_fund_flow ex_env_no_flow 1 = None \<and>
   stock_main_fund_flow ex_env_no_flow 2 = None \<and>
   (\<exists>w'. analyze_stocks ex_env_no_flow ex_world = Inr w' \<and>
     care_file w' = care_file ex_world \<and> care_backup w' = care_backup ex_world \<and>
     result_json w' = result_json ex_world \<and> result_file w' = result_file ex_world)"
proof -
  have h1: "fst (is_trading_day ex_env_no_flow ex_world)"
    by (simp add: is_trading_day_def get_trade_calendar_def fetch_data_by_ak_def
      ex_env_no_flow_def numeral_3_eq_3 Let_def)
  have h2: "\<forall>attempt<3. stock_main_fund_flow ex_env_no_flow attempt = None"
    by (simp add: ex_env_no_flow_def)
  then have h2': "(\<forall>attempt<3. stock_zh_a_spot_em ex_env_no_flow attempt = None) \<or>
         (\<forall>attempt<3. stock_main_fund_flow ex_env_no_flow attempt = None)" by blast
  have h3: "stock_main_fund_flow ex_env_no_flow 0 = None \<and>
   stock_main_fund_flow ex_env_no_flow 1 = None \<and>
   stock_main_fund_flow ex_env_no_flow 2 = None"
    by (simp add: ex_env_no_flow_def)
  from failed_fetch_changes_no_file [OF h1 h2'] h1 h3 show ?thesis by blast
qed

text \<open>
  The same run, evaluated: one calendar call, one spot-quote call, three fund-flow calls,
  and nothing else has changed.
\<close>

lemma failed_fetch_example:
  "analyze_stocks ex_env_no_flow ex_world =
     Inr (ex_world\<lparr>ak_calls :=
       [Trade_calendar, Stock_spot, Main_fund_flow, Main_fund_flow, Main_fund_flow]\<rparr>)"
  by (simp add: analyze_stocks_def is_trading_day_def get_trade_calendar_def
      get_stock_data_def get_main_fund_flow_def
      fetch_data_by_ak_def ex_env_no_flow_def ex_world_def numeral_3_eq_3 Let_def)

section \<open>A full run\<close>

text \<open>
  On a trading day with both tables fetched, the run returns after the three saves, each
  of which ends as the file system decides.
\<close>

lemma analyze_stocks_full_run:
  assumes "fst (is_trading_day e w)"
    and "fst (get_stock_data e w) = Some spot"
    and "fst (get_main_fund_flow e w) = Some (result_df, df)"
  shows "\<exists>w' settled updated.
     analyze_stocks e w = Inr w' \<and>
     rule_evaluator (current_time e) (load_care_stocks w) spot result_df df
       = Inr (settled, updated) \<and>
     care_file w' = write_file (care_write e) updated (care_file w) \<and>
     result_json w' =
       write_file (result_json_write e)
         \<lparr> last_update = current_time e,
           settled_stocks = Some (load_previous_settlements w @ settled) \<rparr>
         (result_json w) \<and>
     result_file w' =
       write_file (result_file_write e)
         \<lparr> report_time = current_time e, report_care_stocks = updated,
           report_settled_stocks = load_previous_settlements w @ settled \<rparr>
         (result_file w)"
proof -
  let ?w1 = "snd (is_trading_day e w)"
  let ?w2 = "snd (get_stock_data e ?w1)"
  let ?w3 = "snd (get_main_fund_flow e ?w2)"
  have f1: "care_file ?w1 = care_file w" by (simp add: is_trading_day_files)
  have f3: "care_file ?w3 = care_file w \<and> result_json ?w3 = result_json w \<and>
      result_file ?w3 = result_file w"
    using get_main_fund_flow_files [of e ?w2] get_stock_data_files [of e ?w1]
      is_trading_day_files [of e w] by simp
  have s: "fst (get_stock_data e ?w1) = Some spot"
    using assms(2) get_stock_data_same [of e ?w1 w] by simp
  have d: "fst (get_main_fund_flow e ?w2) = Some (result_df, df)"
    using assms(3) get_main_fund_flow_same [of e ?w2 w] by simp
  have c: "load_care_stocks ?w1 = load_care_stocks w"
    by (simp add: load_care_stocks_def f1)
  have p: "load_previous_settlements ?w3 = load_previous_settlements w"
    by (simp add: load_previous_settlements_def f3)
  obtain settled updated where
    ev: "rule_evaluator (current_time e) (load_care_stocks w) spot result_df df
           = Inr (settled, updated)"
    using rule_evaluator_total by blast
  let ?all = "load_previous_settlements w @ settled"
  let ?w4 = "save_care_stocks e updated ?w3"
  have run: "analyze_stocks e w =
      Inr (save_result_report e updated ?all (save_settlements_to_json e ?all ?w4))"
    using assms(1) s d c p ev by (simp add: analyze_stocks_def split_beta Let_def)
  have w4: "care_file ?w4 = write_file (care_write e) updated (care_file w) \<and>
      result_json ?w4 = result_json w \<and> result_file ?w4 = result_file w"
    using f3 by (cases "care_write e") (simp_all add: save_care_stocks_def)
  from run ev w4 show ?thesis
    by (simp add: save_result_report_def save_settlements_to_json_def Let_def)
qed

text \<open>
  Claim C6. On a trading day with both tables fetched, \<^verbatim>\<open>analyze_stocks\<close> returns, and
  \<^verbatim>\<open>save_settlements_to_json\<close> has been given the records loaded from the ledger file of
  before the run followed by the settlements of the rule evaluator in this run. When the
  write succeeds, the ledger file holds the time of the run as \<^verbatim>\<open>last_update\<close> and these
  records as \<^verbatim>\<open>settled_stocks\<close>; when the file of before the run held a list of records,
  the loaded records are that list: as it was, in its order, with nothing dropped, merged
  or changed. When the file cannot be opened for writing it stays what it was, and when
  the write fails after the file was opened the file is left unreadable.
\<close>

theorem ledger_is_previous_then_new:
  assumes "fst (is_trading_day e w)"
    and "fst (get_stock_data e w) = Some spot"
    and "fst (get_main_fund_flow e w) = Some (result_df, df)"
  shows "\<exists>w' settled updated.
     analyze_stocks e w = Inr w' \<and>
     rule_evaluator (current_time e) (load_care_stocks w) spot result_df df
       = Inr (settled, updated) \<and>
     result_json w' =
       (case result_json_write e of
          Written \<Rightarrow>
            Content \<lparr> last_update = current_time e,
                      settled_stocks = Some (load_previous_settlements w @ settled) \<rparr>
        | Open_fails \<Rightarrow> result_json w
        | Write_fails \<Rightarrow> Unreadable) \<and>
     (\<forall>t previous.
        result_json_write e = Written \<and>
        result_json w = Content \<lparr> last_update = t, settled_stocks = Some previous \<rparr>
        \<longrightarrow> result_json w' =
              Content \<lparr> last_update = current_time e,
                        settled_stocks = Some (previous @ settled) \<rparr>)"
proof -
  from analyze_stocks_full_run [OF assms] obtain w' settled updated where
    run: "analyze_stocks e w = Inr w'"
      "rule_evaluator (current_time e) (load_care_stocks w) spot result_df df
         = Inr (settled, updated)"
      "result_json w' =
       write_file (result_json_write e)
         \<lparr> last_update = current_time e,
           settled_stocks = Some (load_previous_settlements w @ settled) \<rparr>
         (result_json w)"
    by blast
  have cases: "result_json w' =
       (case result_json_write e of
          Written \<Rightarrow>
            Content \<lparr> last_update = current_time e,
                      settled_stocks = Some (load_previous_settlements w @ settled) \<rparr>
        | Open_fails \<Rightarrow> result_json w
        | Write_fails \<Rightarrow> Unreadable)"
    unfolding run(3) by (cases "result_json_write e") simp_all
  have "load_previous_settlements w = previous"
    if "result_json w = Content \<lparr> last_update = t, settled_stocks = Some previous \<rparr>"
    for t previous
    using that by (simp add: load_previous_settlements_def)
  with run(1,2) cases show ?thesis by auto
qed

text \<open>
  A ledger holding the same record twice, and a run that settles one instrument and whose
  writes succeed: the new ledger holds the record twice, then the new settlement.
\<close>

theorem ledger_is_previous_then_new_witness:
  "fst (is_trading_day ex_env_retry ex_world_ledger) \<and>
   fst (get_stock_data ex_env_retry ex_world_ledger) = Some [ex_spot] \<and>
   fst (get_main_fund_flow ex_env_retry ex_world_ledger) = Some ([], [ex_row]) \<and>
   result_json_write ex_env_retry = Written \<and>
   (\<exists>w'. analyze_stocks ex_env_retry ex_world_ledger = Inr w' \<and>
      result_json w' =
        Content \<lparr> last_update = ''2024-01-03 15:30:00'',
                  settled_stocks = Some ([ex_old_settled, ex_old_settled] @
                    [make_settled ex_stock ex_row (Num 0) (Ratio_below_minus5 (Num (- 6)))]) \<rparr>)"
proof -
  have h: "fst (is_trading_day ex_env_retry ex_world_ledger)"
    "fst (get_stock_data ex_env_retry ex_world_ledger) = Some [ex_spot]"
    "fst (get_main_fund_flow ex_env_retry ex_world_ledger) = Some ([], [ex_row])"
    by (simp_all add: is_trading_day_def get_trade_calendar_def get_stock_data_def
      get_main_fund_flow_def fetch_data_by_ak_def ex_env_retry_def numeral_3_eq_3 Let_def
      rank_main_fund_flow_def candidate_mask_def sort_values_desc_def ex_row_def num_gt_def)
  have ev: "rule_evaluator (current_time ex_env_retry) (load_care_stocks ex_world_ledger)
      [ex_spot] [] [ex_row] =
      Inr ([make_settled ex_stock ex_row (Num 0) (Ratio_below_minus5 (Num (- 6)))], [])"
    by (simp add: highest_price_of_def spot_lookup_def flow_lookup_def ex_spot_def
      ex_stock_def ex_row_def num_gt_def rule_evaluator_def load_care_stocks_def
      ex_world_ledger_def ex_env_retry_def top_5_stocks_def
      evaluate_stock_def profit_loss_break_even_def make_settled_def Let_def)
  have old: "result_json ex_world_ledger = Content \<lparr> last_update = ''2024-01-02 15:30:00'',
                               settled_stocks = Some [ex_old_settled, ex_old_settled] \<rparr>"
    by (simp add: ex_world_ledger_def)
  have now: "current_time ex_env_retry = ''2024-01-03 15:30:00''"
    and ok: "result_json_write ex_env_retry = Written"
    by (simp_all add: ex_env_retry_def)
  from ledger_is_previous_then_new [OF h] obtain w' settled updated where
    run: "analyze_stocks ex_env_retry ex_world_ledger = Inr w'"
      "rule_evaluator (current_time ex_env_retry) (load_care_stocks ex_world_ledger)
         [ex_spot] [] [ex_row] = Inr (settled, updated)"
    and all: "\<forall>t previous.
        result_json_write ex_env_retry = Written \<and>
        result_json ex_world_ledger =
          Content \<lparr> last_update = t, settled_stocks = Some previous \<rparr>
        \<longrightarrow> result_json w' =
              Content \<lparr> last_update = current_time ex_env_retry,
                        settled_stocks = Some (previous @ settled) \<rparr>"
    by blast
  from run(2) ev have "settled =
      [make_settled ex_stock ex_row (Num 0) (Ratio_below_minus5 (Num (- 6)))]" by simp
  with all old now ok have "result_json w' =
        Content \<lparr> last_update = ''2024-01-03 15:30:00'',
                  settled_stocks = Some ([ex_old_settled, ex_old_settled] @
                    [make_settled ex_stock ex_row (Num 0) (Ratio_below_minus5 (Num (- 6)))]) \<rparr>"
    by simp
  with run(1) h ok show ?thesis by blast
qed

text \<open>
  The same run on a file system where the write of \<^verbatim>\<open>result.json\<close> fails after the file
  was opened: the run returns normally, the watch list and the report are written, and
  the ledger file is left unreadable.
\<close>

lemma ledger_write_fails_example:
  "\<exists>w'. analyze_stocks (ex_env_retry\<lparr>result_json_write := Write_fails\<rparr>) ex_world_ledger
           = Inr w' \<and>
     result_json w' = Unreadable \<and> care_file w' = Content [] \<and>
     result_file w' =
       Content \<lparr> report_time = ''2024-01-03 15:30:00'', report_care_stocks = [],
         report_settled_stocks = [ex_old_settled, ex_old_settled,
           make_settled ex_stock ex_row (Num 0) (Ratio_below_minus5 (Num (- 6)))] \<rparr>"
  by (simp add: analyze_stocks_def is_trading_day_def get_trade_calendar_def
      get_stock_data_def get_main_fund_flow_def fetch_data_by_ak_def ex_env_retry_def
      numeral_3_eq_3 Let_def rank_main_fund_flow_def candidate_mask_def sort_values_desc_def
      ex_row_def num_gt_def highest_price_of_def spot_lookup_def flow_lookup_def ex_spot_def
      ex_stock_def rule_evaluator_def load_care_stocks_def load_previous_settlements_def
      ex_world_ledger_def top_5_stocks_def evaluate_stock_def profit_loss_break_even_def
      make_settled_def save_care_stocks_def save_settlements_to_json_def
      save_result_report_def)

section \<open>Codes of the watch list\<close>

text \<open>
  The first loop keeps at most one entry for each entry of the watch list, under the same
  code.
\<close>

lemma evaluate_stock_codes_subset:
  "set (map code (snd (evaluate_stock sd fd s ([], [])))) \<subseteq> {code s}"
  using evaluate_stock_codes [of sd fd s] by auto

lemma distinct_evaluate_stock:
  "distinct (map code (snd (evaluate_stock sd fd s ([], []))))"
  using evaluate_stock_codes [of sd fd s] by auto

lemma evaluate_care_stocks_codes:
  "set (map code (snd (evaluate_care_stocks sd fd care ([], [])))) \<subseteq> code ` set care"
proof -
  have "code x \<in> code ` set care"
    if "x \<in> set (snd (evaluate_care_stocks sd fd care ([], [])))" for x
  proof -
    from that obtain s where s: "s \<in> set care" "x \<in> set (snd (evaluate_stock sd fd s ([], [])))"
      unfolding evaluate_care_stocks_snd by blast
    with evaluate_stock_codes_subset [of sd fd s] have "code x = code s" by auto
    with s(1) show ?thesis by simp
  qed
  then show ?thesis by auto
qed

lemma evaluate_care_stocks_distinct:
  "distinct (map code care) \<Longrightarrow>
   distinct (map code (snd (evaluate_care_stocks sd fd care ([], []))))"
proof (induction care)
  case Nil
  show ?case by simp
next
  case (Cons s care)
  have split: "snd (evaluate_care_stocks sd fd (s # care) ([], [])) =
      snd (evaluate_stock sd fd s ([], [])) @ snd (evaluate_care_stocks sd fd care ([], []))"
    by (simp add: evaluate_care_stocks_acc)
  have d1: "distinct (map code (snd (evaluate_stock sd fd s ([], []))))"
    by (rule distinct_evaluate_stock)
  have d2: "distinct (map code (snd (evaluate_care_stocks sd fd care ([], []))))"
    using Cons by simp
  have "code s \<notin> code ` set care" using Cons.prems by simp
  with evaluate_care_stocks_codes [of sd fd care] evaluate_stock_codes_subset [of sd fd s]
  have "set (map code (snd (evaluate_stock sd fd s ([], [])))) \<inter>
        set (map code (snd (evaluate_care_stocks sd fd care ([], [])))) = {}"
    by blast
  with d1 d2 show ?case unfolding split by simp
qed

text \<open>
  Claim C10. When the codes of the watch list are pairwise distinct, the run of the rule
  evaluator returns an updated watch list whose codes are pairwise distinct: the first loop
  keeps entries under their codes, and the second loop adds a candidate only when no entry
  of the list built so far has its code.
\<close>

theorem watch_list_codes_stay_distinct:
  assumes "distinct (map code care_stocks)"
  shows "\<exists>settled updated.
     rule_evaluator now care_stocks sd result_df df = Inr (settled, updated) \<and>
     distinct (map code updated)"
proof -
  let ?ev = "evaluate_care_stocks sd df care_stocks ([], [])"
  obtain u where
    u: "add_top_stocks now sd result_df (top_5_stocks result_df) (snd ?ev) = Inr u"
    using add_top_stocks_total [OF top_5_stocks_subset] by blast
  have "distinct (map code (snd ?ev))"
    using assms by (rule evaluate_care_stocks_distinct)
  from add_top_stocks_distinct [OF this u] have "distinct (map code u)" .
  moreover have "rule_evaluator now care_stocks sd result_df df = Inr (fst ?ev, u)"
    using u by (simp add: rule_evaluator_def Let_def split_beta)
  ultimately show ?thesis by blast
qed

text \<open>
  A ranking in which one code occurs in two of the five best rows, and a watch list that
  already holds another of the five.
\<close>

theorem watch_list_codes_stay_distinct_witness:
  "distinct (map code [ex_stock_of ''000005'', ex_stock_of ''600000'']) \<and>
   top_5_stocks (fst (rank_main_fund_flow ex_ranking_twice)) =
     [''000002'', ''000005'', ''000002'', ''000006'', ''000008''] \<and>
   (\<exists>settled updated.
      rule_evaluator ''2024-01-03 15:30:00'' [ex_stock_of ''000005'', ex_stock_of ''600000'']
        ex_spots (fst (rank_main_fund_flow ex_ranking_twice)) ex_ranking_twice
        = Inr (settled, updated) \<and>
      distinct (map code updated))"
proof -
  have h: "distinct (map code [ex_stock_of ''000005'', ex_stock_of ''600000''])"
    by (simp add: ex_stock_of_def)
  have t: "top_5_stocks (fst (rank_main_fund_flow ex_ranking_twice)) =
     [''000002'', ''000005'', ''000002'', ''000006'', ''000008'']"
    by (simp add: ex_ranking_twice_def ex_ranking_def ex_flow_def rank_main_fund_flow_def
      candidate_mask_def sort_values_desc_def top_5_stocks_def num_gt_def)
  from watch_list_codes_stay_distinct
    [OF h, where now = "''2024-01-03 15:30:00''" and sd = ex_spots
      and result_df = "fst (rank_main_fund_flow ex_ranking_twice)" and df = ex_ranking_twice]
    h t show ?thesis by blast
qed

text \<open>
  The same run, evaluated: the watched candidate is kept once, the doubled candidate is
  added once.
\<close>

lemma watch_list_codes_example:
  "\<exists>settled updated.
      rule_evaluator ''2024-01-03 15:30:00'' [ex_stock_of ''000005'', ex_stock_of ''600000'']
        ex_spots (fst (rank_main_fund_flow ex_ranking_twice)) ex_ranking_twice
        = Inr (settled, updated) \<and>
      map code updated = [''000005'', ''600000'', ''000002'', ''000006'', ''000008'']"
  by (simp add: ex_ranking_twice_def ex_ranking_def ex_flow_def rank_main_fund_flow_def
      candidate_mask_def sort_values_desc_def top_5_stocks_def num_gt_def
      rule_evaluator_def evaluate_stock_def highest_price_of_def spot_lookup_def
      flow_lookup_def ex_spots_def ex_spot_of_def ex_stock_of_def refresh_def new_stock_def
      Let_def)

end
